theory Spec2Isabelle
  imports Main "HOL-Library.AList"
begin

section \<open>The document store of src/app.js\<close>

text \<open>
  The store is the global \<^verbatim>\<open>DB\<close> object of src/app.js: a list of classrooms, each
  owning its students, lessons and columns. Every entity is a JavaScript object with an
  \<^verbatim>\<open>id\<close> and an \<^verbatim>\<open>updatedAt\<close> field; the records below extend one common
  record with these two fields, so that \<^verbatim>\<open>mergeArrayById\<close> can be written once for
  students and lessons, as in the source. The field \<^verbatim>\<open>id\<close> is written \<open>id'\<close>
  (\<open>id\<close> is the identity function of HOL); \<open>None\<close> stands for a field that
  is \<^verbatim>\<open>undefined\<close> or \<^verbatim>\<open>null\<close>.

  A lesson's \<^verbatim>\<open>data\<close> object is an association list from its string keys
  (\<^verbatim>\<open>att_${sid}\<close>, \<^verbatim>\<open>col_${cid}_${sid}\<close>) to strings. The student's and the
  column's \<^verbatim>\<open>name\<close> and the student's \<^verbatim>\<open>note\<close> are written \<open>s_name\<close>,
  \<open>col_name\<close> and \<open>s_note\<close>.
\<close>

record 'k entity =
  id' :: 'k
  updatedAt :: "string option"

record student = "int entity" +
  s_name :: string
  phone :: string
  email :: string
  parentName :: string
  parentPhone :: string
  s_note :: string

record lesson = "int entity" +
  topic :: string
  date :: string
  num :: int
  mode :: string
  studentIds :: "int list option"
  data :: "(string \<times> string) list option"

record column = "int entity" +
  col_name :: string
  ielts :: bool
  lessonId :: "int option"

record classroom = "string entity" +
  name :: string
  subject :: string
  teacher :: string
  students :: "student list"
  lessons :: "lesson list"
  columns :: "column list"
  nextSid :: int
  nextLid :: int
  nextCid :: int

record user =
  user_id :: "string option"
  user_mode :: string

record marker =
  timestamp :: string
  ctx :: string

record export_settings =
  color :: "int \<times> int \<times> int \<times> int"
  logo :: "string option"
  logoName :: "string option"
  logoSize :: "int option"

record store =
  classrooms :: "classroom list"
  nextId :: "int option"
  user :: "user option"
  lastSync :: "string option"
  syncStatus :: "string option"
  pendingChanges :: "marker list option"
  exportSettings :: "export_settings option"
  gradeTemplates :: "(string \<times> string list) list option"

section \<open>JavaScript helpers used by the merge\<close>

text \<open>
  \<^verbatim>\<open>new Map(entries)\<close>: an insertion-ordered table. Setting a key that is already
  there replaces its value in place, a new key is appended; this is \<open>AList.update\<close>.
\<close>

definition new_Map :: "('k \<times> 'v) list \<Rightarrow> ('k \<times> 'v) list" where
  "new_Map entries = foldl (\<lambda>m (k, v). AList.update k v m) [] entries"

text \<open>\<^verbatim>\<open>new Set(xs)\<close>: insertion-ordered, an element already there is skipped.\<close>

definition new_Set :: "'k list \<Rightarrow> 'k list" where
  "new_Set xs = foldl (\<lambda>s x. if x \<in> set s then s else s @ [x]) [] xs"

text \<open>
  \<^verbatim>\<open>new Date(x || 0).getTime()\<close>. The parser of date strings is the runtime's
  \<^verbatim>\<open>Date.parse\<close>, a parameter of the model: \<open>None\<close> is \<^verbatim>\<open>NaN\<close> (an invalid
  date). A missing or empty \<^verbatim>\<open>updatedAt\<close> is falsy and gives the epoch, 0.
\<close>

definition getTime :: "(string \<Rightarrow> int option) \<Rightarrow> string option \<Rightarrow> int option" where
  "getTime parse u =
     (case u of None \<Rightarrow> Some 0 | Some s \<Rightarrow> if s = [] then Some 0 else parse s)"

text \<open>The comparison \<^verbatim>\<open>a > b\<close> on numbers: false as soon as one side is \<^verbatim>\<open>NaN\<close>.\<close>

definition js_gt :: "int option \<Rightarrow> int option \<Rightarrow> bool" where
  "js_gt a b = (case a of None \<Rightarrow> False | Some x \<Rightarrow> (case b of None \<Rightarrow> False | Some y \<Rightarrow> y < x))"

text \<open>\<^verbatim>\<open>x || 1\<close> on a number that may be missing: 0 is falsy as well.\<close>

definition or_one :: "int option \<Rightarrow> int" where
  "or_one x = (case x of None \<Rightarrow> 1 | Some n \<Rightarrow> if n = 0 then 1 else n)"

definition newer :: "(string \<Rightarrow> int option) \<Rightarrow> ('k, 'a) entity_scheme \<Rightarrow> ('k, 'b) entity_scheme \<Rightarrow> bool" where
  "newer parse r l = js_gt (getTime parse (updatedAt r)) (getTime parse (updatedAt l))"

section \<open>Data merging (src/app.js, lines 88 to 126)\<close>

text \<open>
  \<^verbatim>\<open>mergeArrayById(local, remote)\<close>: first every local item, replaced by the remote item
  of the same id when that one is strictly newer, then the remote items whose id the
  local side does not have.
\<close>

definition mergeArrayById ::
  "(string \<Rightarrow> int option) \<Rightarrow> ('k, 'a) entity_scheme list \<Rightarrow> ('k, 'a) entity_scheme list
     \<Rightarrow> ('k, 'a) entity_scheme list" where
  "mergeArrayById parse local remote =
     (let lm = new_Map (map (\<lambda>i. (id' i, i)) local);
          rm = new_Map (map (\<lambda>i. (id' i, i)) remote);
          merged = map (\<lambda>(k, li). case map_of rm k of
                                      Some ri \<Rightarrow> if newer parse ri li then ri else li
                                    | None \<Rightarrow> li) lm
      in merged @ map snd (filter (\<lambda>(k, ri). map_of lm k = None) rm))"

text \<open>
  The body of the loop \<^verbatim>\<open>for (const id of allIds)\<close> of \<^verbatim>\<open>mergeData\<close>, with its
  three branches; \<open>merged\<close> is \<^verbatim>\<open>merged.classrooms\<close>. The children's arrays are
  lists here, and \<^verbatim>\<open>xs || []\<close> is \<^verbatim>\<open>xs\<close> on an array.
\<close>

definition mergeClassroom ::
  "(string \<Rightarrow> int option) \<Rightarrow> (string \<times> classroom) list \<Rightarrow> (string \<times> classroom) list
     \<Rightarrow> classroom list \<Rightarrow> string \<Rightarrow> classroom list" where
  "mergeClassroom parse localMap remoteMap merged k =
     (case (map_of localMap k, map_of remoteMap k) of
        (Some lc, None) \<Rightarrow> merged @ [lc]
      | (None, Some rc) \<Rightarrow> merged @ [rc]
      | (Some lc, Some rc) \<Rightarrow>
          (if newer parse rc lc
           then merged @ [rc\<lparr>students := mergeArrayById parse (students lc) (students rc),
                             lessons := mergeArrayById parse (lessons lc) (lessons rc)\<rparr>]
           else merged @ [lc])
      | (None, None) \<Rightarrow> merged)"

text \<open>
  \<^verbatim>\<open>mergeData(local, remote)\<close>. The second argument \<open>now\<close> is the reading of the clock,
  \<^verbatim>\<open>new Date().toISOString()\<close>, that the function stores in \<^verbatim>\<open>lastSync\<close>; a falsy
  \<^verbatim>\<open>remote\<close> is \<open>None\<close>.
\<close>

definition mergeData ::
  "(string \<Rightarrow> int option) \<Rightarrow> string \<Rightarrow> store \<Rightarrow> store option \<Rightarrow> store" where
  "mergeData parse now local remote =
     (case remote of
        None \<Rightarrow> local
      | Some r \<Rightarrow>
          (let localMap = new_Map (map (\<lambda>c. (id' c, c)) (classrooms local));
               remoteMap = new_Map (map (\<lambda>c. (id' c, c)) (classrooms r));
               allIds = new_Set (map fst localMap @ map fst remoteMap)
           in local\<lparr>classrooms := foldl (mergeClassroom parse localMap remoteMap) [] allIds,
                    nextId := Some (max (or_one (nextId local)) (or_one (nextId r))),
                    lastSync := Some now,
                    exportSettings := (case exportSettings r of
                                         Some e \<Rightarrow> Some e
                                       | None \<Rightarrow> exportSettings local)\<rparr>))"

section \<open>The application state and its environment\<close>

text \<open>
  One row of the remote \<^verbatim>\<open>classrooms\<close> table: the object that
  \<^verbatim>\<open>saveUserDataToSupabase\<close> upserts and that \<^verbatim>\<open>loadUserDataFromSupabase\<close> reads.
\<close>

record classroom_row =
  cr_id :: string
  cr_user_id :: string
  cr_name :: string
  cr_subject :: "string option"
  cr_teacher_name :: "string option"
  cr_next_student_id :: int
  cr_next_lesson_id :: int
  cr_next_column_id :: int
  cr_updated_at :: "string option"

text \<open>
  A thrown value or the \<^verbatim>\<open>error\<close> field of a response, with its optional
  \<^verbatim>\<open>message\<close>. A query of the Supabase client either rejects (the \<^verbatim>\<open>await\<close>
  throws) or resolves to \<^verbatim>\<open>{ data, error }\<close>.
\<close>

datatype js_error = Error "string option"

datatype 'a response = Rejected js_error | Resolved "'a option" "js_error option"

text \<open>
  What the program does to the outside, in the order it does it: a snapshot written to
  the two slots of \<^verbatim>\<open>localStorage\<close> by \<^verbatim>\<open>saveToLocalStorage\<close> (which catches its
  own exceptions), a request sent to the remote \<^verbatim>\<open>classrooms\<close> table together with
  the response it got, and a call of \<^verbatim>\<open>showErrorNotification\<close>. The requests are
  those of the client library that the two copies of the program use on this table:
  \<^verbatim>\<open>upsert(row)\<close>, \<^verbatim>\<open>insert(row)\<close> and \<^verbatim>\<open>delete().eq('user_id', userId)\<close>.
\<close>

datatype notice = TablesNotSetUp | ItemsFailed nat | RunSetupScript | SyncFailed

datatype effect =
    LocalSave store
  | RemoteUpsert classroom_row "classroom_row response"
  | RemoteInsert classroom_row "classroom_row response"
  | RemoteDelete string "classroom_row response"
  | Notify notice

text \<open>
  The environment of one operation: \<^verbatim>\<open>navigator.onLine\<close>, whether the module
  variable \<^verbatim>\<open>supabase\<close> holds a client, the reading of the clock
  (\<^verbatim>\<open>new Date().toISOString()\<close>, read once per operation here), \<^verbatim>\<open>todayStr()\<close>,
  and the answer of the backend to the upsert of a row.
\<close>

record env =
  onLine :: bool
  supabase :: bool
  now :: string
  today :: string
  upsert_result :: "classroom_row \<Rightarrow> classroom_row response"

text \<open>
  The module variables of src/app.js: \<^verbatim>\<open>DB\<close>, the cursors \<^verbatim>\<open>CID\<close> and
  \<^verbatim>\<open>LID\<close>, \<^verbatim>\<open>editSid\<close>, \<^verbatim>\<open>currentLessonMode\<close>, the badges of
  \<^verbatim>\<open>saveQueue\<close> and the badge of the save that the debounce timer \<^verbatim>\<open>_st\<close> holds.
  \<^verbatim>\<open>DB_INDEX\<close> is rebuilt from \<^verbatim>\<open>DB\<close> by \<^verbatim>\<open>rebuildIndex\<close> after every
  structural change and its entries are the objects of \<^verbatim>\<open>DB.classrooms\<close> themselves:
  a lookup in the index is a lookup in \<open>DB\<close> where the last entry of an id wins (as
  \<^verbatim>\<open>Map.set\<close> overwrites), and a write through an object of the index is an update in
  place.
\<close>

record app =
  DB :: store
  CID :: "string option"
  LID :: "int option"
  editSid :: "int option"
  currentLessonMode :: string
  saveQueue :: "string list"
  timer :: "string option"
  trace :: "effect list"

section \<open>Local persistence and the pending queue (src/app.js, lines 221 to 234)\<close>

definition saveToLocalStorage :: "app \<Rightarrow> app" where
  "saveToLocalStorage a = a\<lparr>trace := trace a @ [LocalSave (DB a)]\<rparr>"

text \<open>
  \<^verbatim>\<open>queuePendingChanges(badge)\<close>: \<^verbatim>\<open>push\<close> appends the marker
  \<^verbatim>\<open>{ timestamp, context: badge || 'unknown' }\<close> at the end, \<^verbatim>\<open>shift\<close> removes the
  first entry.
\<close>

definition marker_of :: "string \<times> string option \<Rightarrow> marker" where
  "marker_of m =
     \<lparr>timestamp = fst m,
      ctx = (case snd m of None \<Rightarrow> ''unknown'' | Some b \<Rightarrow> if b = [] then ''unknown'' else b)\<rparr>"

definition queuePendingChanges :: "string \<Rightarrow> string option \<Rightarrow> app \<Rightarrow> app" where
  "queuePendingChanges t badge a =
     (let q = (case pendingChanges (DB a) of None \<Rightarrow> [] | Some q \<Rightarrow> q);
          pushed = q @ [marker_of (t, badge)];
          shifted = (if 50 < length pushed then tl pushed else pushed)
      in saveToLocalStorage (a\<lparr>DB := (DB a)\<lparr>pendingChanges := Some shifted\<rparr>\<rparr>))"

text \<open>A run of calls, one per pair of a clock reading and a badge.\<close>

definition enqueue_all :: "(string \<times> string option) list \<Rightarrow> app \<Rightarrow> app" where
  "enqueue_all ms a = foldl (\<lambda>s (t, badge). queuePendingChanges t badge s) a ms"

section \<open>The push (src/app.js, lines 336 to 349)\<close>

text \<open>\<^verbatim>\<open>s.includes(t)\<close> on strings.\<close>

fun js_includes :: "string \<Rightarrow> string \<Rightarrow> bool" where
  "js_includes [] t = (t = [])"
| "js_includes (c # s) t = (take (length t) (c # s) = t \<or> js_includes s t)"

text \<open>\<^verbatim>\<open>error?.message?.includes(t)\<close>, used as a condition: a missing error or message is falsy.\<close>

definition message_includes :: "js_error option \<Rightarrow> string \<Rightarrow> bool" where
  "message_includes err t =
     (case err of
        None \<Rightarrow> False
      | Some (Error None) \<Rightarrow> False
      | Some (Error (Some m)) \<Rightarrow> js_includes m t)"

definition classroom_row_of :: "string \<Rightarrow> string \<Rightarrow> classroom \<Rightarrow> classroom_row" where
  "classroom_row_of userId t c =
     \<lparr>cr_id = id' c, cr_user_id = userId, cr_name = name c, cr_subject = Some (subject c),
      cr_teacher_name = Some (teacher c), cr_next_student_id = nextSid c,
      cr_next_lesson_id = nextLid c, cr_next_column_id = nextCid c,
      cr_updated_at = Some t\<rparr>"

text \<open>
  The loop \<^verbatim>\<open>for (const c of DB.classrooms)\<close>. The result is the list \<^verbatim>\<open>errors\<close>
  and the effects so far; \<open>None\<close> for the errors is the \<^verbatim>\<open>return\<close> from inside
  the loop, on an error whose message includes \<^verbatim>\<open>does not exist\<close>.
\<close>

fun upsert_loop ::
  "env \<Rightarrow> string \<Rightarrow> classroom list \<Rightarrow> js_error list \<Rightarrow> effect list
     \<Rightarrow> js_error list option \<times> effect list" where
  "upsert_loop e userId [] errors effs = (Some errors, effs)"
| "upsert_loop e userId (c # cs) errors effs =
     (let row = classroom_row_of userId (now e) c;
          resp = upsert_result e row;
          effs' = effs @ [RemoteUpsert row resp]
      in case resp of
           Rejected x \<Rightarrow> upsert_loop e userId cs (errors @ [x]) effs'
         | Resolved d None \<Rightarrow> upsert_loop e userId cs errors effs'
         | Resolved d (Some x) \<Rightarrow>
             (if message_includes (Some x) ''does not exist''
              then (None, effs' @ [Notify TablesNotSetUp])
              else upsert_loop e userId cs (errors @ [x]) effs'))"

text \<open>
  The effects of one push: those of the loop, then the notification
  \<^verbatim>\<open>${errors.length} items failed to sync\<close> when the loop ended with errors.
\<close>

definition push_effects :: "env \<Rightarrow> string \<Rightarrow> classroom list \<Rightarrow> effect list" where
  "push_effects e userId cs =
     (case upsert_loop e userId cs [] [] of
        (None, effs) \<Rightarrow> effs
      | (Some errors, effs) \<Rightarrow>
          effs @ (if errors = [] then [] else [Notify (ItemsFailed (length errors))]))"

definition saveUserDataToSupabase :: "env \<Rightarrow> string \<Rightarrow> app \<Rightarrow> js_error + app" where
  "saveUserDataToSupabase e userId a =
     (if \<not> supabase e then Inl (Error (Some ''Supabase not initialized''))
      else Inr (a\<lparr>trace := trace a @ push_effects e userId (classrooms (DB a))\<rparr>))"

text \<open>
  Modelled from the spec: the remote table and the backend's answer to a request, which
  are not part of the repository. The spec has the push \<^emph>\<open>upsert one row per classroom
  keyed by its own id and owner id\<close>: a row whose key is in the table replaces the row of
  that key, any other row is added; an insert adds its row, a delete removes the rows of
  the user. Which requests the backend applied is told by \<open>applied\<close>, a predicate on
  the responses and a parameter: a request may have been applied although its response
  carries an error (as when \<^verbatim>\<open>.single()\<close> fails on the rows returned).
\<close>

definition row_key :: "classroom_row \<Rightarrow> string \<times> string" where
  "row_key r = (cr_id r, cr_user_id r)"

definition upsert :: "classroom_row \<Rightarrow> classroom_row list \<Rightarrow> classroom_row list" where
  "upsert r t =
     (if row_key r \<in> row_key ` set t
      then map (\<lambda>x. if row_key x = row_key r then r else x) t
      else t @ [r])"

fun apply_effect ::
  "(classroom_row response \<Rightarrow> bool) \<Rightarrow> classroom_row list \<Rightarrow> effect \<Rightarrow> classroom_row list" where
  "apply_effect applied t (RemoteUpsert r resp) = (if applied resp then upsert r t else t)"
| "apply_effect applied t (RemoteInsert r resp) = (if applied resp then t @ [r] else t)"
| "apply_effect applied t (RemoteDelete userId resp) =
     (if applied resp then filter (\<lambda>x. cr_user_id x \<noteq> userId) t else t)"
| "apply_effect applied t eff = t"

definition remote_after ::
  "(classroom_row response \<Rightarrow> bool) \<Rightarrow> effect list \<Rightarrow> classroom_row list \<Rightarrow> classroom_row list" where
  "remote_after applied effs t = foldl (apply_effect applied) t effs"

text \<open>A response without error tells that the request was applied.\<close>

definition applied_on_success :: "(classroom_row response \<Rightarrow> bool) \<Rightarrow> bool" where
  "applied_on_success applied = (\<forall>d. applied (Resolved d None))"

text \<open>The rows that the upserts of a list of effects wrote, and the requests that are not upserts.\<close>

fun upserted :: "(classroom_row response \<Rightarrow> bool) \<Rightarrow> effect \<Rightarrow> classroom_row list" where
  "upserted applied (RemoteUpsert r resp) = (if applied resp then [r] else [])"
| "upserted applied eff = []"

fun deletes_or_inserts :: "effect \<Rightarrow> bool" where
  "deletes_or_inserts (RemoteInsert r resp) = True"
| "deletes_or_inserts (RemoteDelete userId resp) = True"
| "deletes_or_inserts eff = False"

section \<open>The save pipeline (src/app.js, lines 357 to 373)\<close>

text \<open>\<^verbatim>\<open>DB.user?.mode === 'supabase' && DB.user?.id\<close>: the id must be truthy.\<close>

definition remote_user :: "store \<Rightarrow> string option" where
  "remote_user db =
     (case user db of
        None \<Rightarrow> None
      | Some u \<Rightarrow> if user_mode u = ''supabase'' \<and> user_id u \<noteq> None \<and> user_id u \<noteq> Some []
                  then user_id u else None)"

text \<open>
  The closure \<^verbatim>\<open>saveOperation\<close> of \<^verbatim>\<open>saveDB(badge, immediate)\<close>. Its exception
  handler around the push queues a pending marker; there is no branch for the case that
  the condition of the push is false.
\<close>

definition saveOperation :: "env \<Rightarrow> string \<Rightarrow> app \<Rightarrow> app" where
  "saveOperation e badge a =
     (let a1 = saveToLocalStorage a;
          a2 = (case (if onLine e \<and> supabase e then remote_user (DB a1) else None) of
                  Some uid \<Rightarrow>
                    (case saveUserDataToSupabase e uid a1 of
                       Inr a' \<Rightarrow> a'\<lparr>DB := (DB a')\<lparr>pendingChanges := Some []\<rparr>\<rparr>
                     | Inl x \<Rightarrow> queuePendingChanges (now e) (Some badge) a1)
                | None \<Rightarrow> a1)
      in a2\<lparr>saveQueue := []\<rparr>)"

definition saveDB :: "env \<Rightarrow> string \<Rightarrow> bool \<Rightarrow> app \<Rightarrow> app" where
  "saveDB e badge immediate a =
     (let a1 = a\<lparr>saveQueue := saveQueue a @ [badge]\<rparr>
      in if immediate then saveOperation e badge (a1\<lparr>timer := None\<rparr>)
         else a1\<lparr>timer := Some badge\<rparr>)"

text \<open>The debounce timer fires, 150 ms after the last call that was not immediate.\<close>

definition timer_fires :: "env \<Rightarrow> app \<Rightarrow> app" where
  "timer_fires e a =
     (case timer a of None \<Rightarrow> a | Some badge \<Rightarrow> saveOperation e badge (a\<lparr>timer := None\<rparr>))"

text \<open>
  The same closure in the older copy of the program (src/unnamed/part\_000, lines 1006 to
  1048, version 6.0.0), which has one more branch: \<^verbatim>\<open>else if (DB.user?.mode ===
  'supabase')\<close> queues a pending marker under the badge of the last entry of
  \<^verbatim>\<open>saveQueue\<close>. The push of that copy is a parameter.
\<close>

definition saveOperation_v6 ::
  "(env \<Rightarrow> string \<Rightarrow> app \<Rightarrow> js_error + app) \<Rightarrow> env \<Rightarrow> string \<Rightarrow> app \<Rightarrow> app" where
  "saveOperation_v6 push e badge a =
     (let a1 = saveToLocalStorage a;
          a2 = (case (if onLine e \<and> supabase e then remote_user (DB a1) else None) of
                  Some uid \<Rightarrow>
                    (case push e uid a1 of
                       Inr a' \<Rightarrow> a'\<lparr>DB := (DB a')\<lparr>pendingChanges := Some []\<rparr>\<rparr>
                     | Inl x \<Rightarrow> queuePendingChanges (now e) (Some badge) a1)
                | None \<Rightarrow>
                    (case user (DB a1) of
                       None \<Rightarrow> a1
                     | Some u \<Rightarrow>
                         if user_mode u = ''supabase''
                         then queuePendingChanges (now e)
                                (if saveQueue a1 = [] then None else Some (last (saveQueue a1))) a1
                         else a1))
      in a2\<lparr>saveQueue := []\<rparr>)"

section \<open>The pull (src/app.js, lines 263 to 334)\<close>

record student_row =
  sr_classroom_id :: string
  sr_student_number :: int
  sr_name :: string
  sr_phone :: "string option"
  sr_email :: "string option"
  sr_parent_name :: "string option"
  sr_parent_phone :: "string option"
  sr_notes :: "string option"
  sr_updated_at :: "string option"

record lesson_row =
  lr_id :: string
  lr_classroom_id :: string
  lr_lesson_number :: int
  lr_title :: string
  lr_lesson_date :: string
  lr_mode :: string
  lr_student_ids :: "int list option"
  lr_updated_at :: "string option"

record column_row =
  colr_classroom_id :: string
  colr_column_number :: int
  colr_name :: string
  colr_ielts :: "bool option"
  colr_lesson_id :: "string option"

record grade_row =
  gr_lesson_id :: string
  gr_column_id :: "string option"
  gr_student_id :: string
  gr_grade :: string

record attendance_row =
  ar_lesson_id :: string
  ar_student_id :: string
  ar_status :: string

record settings_row =
  set_color :: "(int \<times> int \<times> int \<times> int) option"
  set_logo_data :: "string option"
  set_logo_name :: "string option"
  set_logo_size :: "int option"

text \<open>
  The answers of the backend to the queries of one pull, in the order the function sends
  them, and the runtime's \<^verbatim>\<open>parseInt\<close> (\<open>None\<close> is \<^verbatim>\<open>NaN\<close>). The queries
  with an \<^verbatim>\<open>.in(column, ids)\<close> filter take the list of ids.
\<close>

record pull_env =
  q_check :: "classroom_row list response"
  q_classrooms :: "classroom_row list response"
  q_settings :: "settings_row response"
  q_students :: "string list \<Rightarrow> student_row list response"
  q_lessons :: "string list \<Rightarrow> lesson_row list response"
  q_columns :: "string list \<Rightarrow> column_row list response"
  q_grades :: "string list \<Rightarrow> grade_row list response"
  q_attendance :: "string list \<Rightarrow> attendance_row list response"
  parseInt :: "string \<Rightarrow> int option"

text \<open>\<^verbatim>\<open>checkTableExists\<close>, on the response of its query.\<close>

definition checkTableExists :: "'a response \<Rightarrow> bool" where
  "checkTableExists r =
     (case r of
        Rejected x \<Rightarrow> False
      | Resolved d err \<Rightarrow>
          \<not> (message_includes err ''relation'' \<and> message_includes err ''does not exist''))"

text \<open>
  \<^verbatim>\<open>await Promise.all([p, q, ...])\<close> throws when one of the promises rejects (the first
  of the list here), and gives the pairs of \<^verbatim>\<open>data\<close> and \<^verbatim>\<open>error\<close> otherwise.
\<close>

definition awaited :: "'a response \<Rightarrow> js_error + ('a option \<times> js_error option)" where
  "awaited r = (case r of Rejected x \<Rightarrow> Inl x | Resolved d err \<Rightarrow> Inr (d, err))"

text \<open>\<^verbatim>\<open>x || ''\<close>, \<^verbatim>\<open>xs || []\<close> on a value that may be null, and the rows of a response's
  \<^verbatim>\<open>data\<close> where a null \<^verbatim>\<open>data\<close> is skipped (\<^verbatim>\<open>data?.forEach\<close>, \<^verbatim>\<open>data || []\<close>).\<close>

definition or_empty :: "'a list option \<Rightarrow> 'a list" where
  "or_empty x = (case x of None \<Rightarrow> [] | Some s \<Rightarrow> s)"

text \<open>The slices \<^verbatim>\<open>xs.slice(i, i + n)\<close> for \<^verbatim>\<open>i = 0, n, 2n, ...\<close> below the length.\<close>

fun batches :: "nat \<Rightarrow> 'a list \<Rightarrow> 'a list list" where
  "batches n xs = (if n = 0 \<or> xs = [] then [] else take n xs # batches n (drop n xs))"

definition BATCH_SIZE :: nat where
  "BATCH_SIZE = 25"

text \<open>The loop over the batches of lesson ids; a rejected query throws.\<close>

fun load_batches ::
  "pull_env \<Rightarrow> string list list \<Rightarrow> grade_row list \<Rightarrow> attendance_row list
     \<Rightarrow> js_error + (grade_row list \<times> attendance_row list)" where
  "load_batches q [] grades attendance = Inr (grades, attendance)"
| "load_batches q (batch # rest) grades attendance =
     (case awaited (q_grades q batch) of
        Inl x \<Rightarrow> Inl x
      | Inr (gd, ge) \<Rightarrow>
          (case awaited (q_attendance q batch) of
             Inl x \<Rightarrow> Inl x
           | Inr (ad, ae) \<Rightarrow>
               load_batches q rest (grades @ or_empty gd) (attendance @ or_empty ad)))"

text \<open>The object built for one lesson row, with its \<^verbatim>\<open>data\<close>.\<close>

definition cloud_lesson :: "grade_row list \<Rightarrow> attendance_row list \<Rightarrow> lesson_row \<Rightarrow> lesson" where
  "cloud_lesson grades attendance l =
     (let d0 = foldl (\<lambda>d g. case gr_column_id g of
                               None \<Rightarrow> d
                             | Some cid \<Rightarrow>
                                 if cid = [] then d
                                 else AList.update (''col_'' @ cid @ ''_'' @ gr_student_id g) (gr_grade g) d)
                 [] (filter (\<lambda>g. gr_lesson_id g = lr_id l) grades);
          d1 = foldl (\<lambda>d a. AList.update (''att_'' @ ar_student_id a) (ar_status a) d)
                 d0 (filter (\<lambda>a. ar_lesson_id a = lr_id l) attendance)
      in \<lparr>id' = lr_lesson_number l, updatedAt = lr_updated_at l, topic = lr_title l,
          date = lr_lesson_date l, num = lr_lesson_number l, mode = lr_mode l,
          studentIds = Some (or_empty (lr_student_ids l)), data = Some d1\<rparr>)"

definition cloud_student :: "student_row \<Rightarrow> student" where
  "cloud_student s =
     \<lparr>id' = sr_student_number s, updatedAt = sr_updated_at s, s_name = sr_name s,
      phone = or_empty (sr_phone s), email = or_empty (sr_email s),
      parentName = or_empty (sr_parent_name s), parentPhone = or_empty (sr_parent_phone s),
      s_note = or_empty (sr_notes s)\<rparr>"

definition cloud_column :: "lesson_row list \<Rightarrow> column_row \<Rightarrow> column" where
  "cloud_column classroomLessons c =
     \<lparr>id' = colr_column_number c, updatedAt = None, col_name = colr_name c,
      ielts = (case colr_ielts c of None \<Rightarrow> False | Some b \<Rightarrow> b),
      lessonId = (case colr_lesson_id c of
                    None \<Rightarrow> None
                  | Some k \<Rightarrow>
                      if k = [] then None
                      else map_option lr_lesson_number (List.find (\<lambda>l. lr_id l = k) classroomLessons))\<rparr>"

definition cloud_classroom ::
  "student_row list \<Rightarrow> lesson_row list \<Rightarrow> column_row list \<Rightarrow> grade_row list
     \<Rightarrow> attendance_row list \<Rightarrow> classroom_row \<Rightarrow> classroom" where
  "cloud_classroom studentRows lessonRows columnRows grades attendance c =
     (let classroomLessons = filter (\<lambda>l. lr_classroom_id l = cr_id c) lessonRows
      in \<lparr>id' = cr_id c, updatedAt = cr_updated_at c, name = cr_name c,
          subject = or_empty (cr_subject c), teacher = or_empty (cr_teacher_name c),
          students = map cloud_student (filter (\<lambda>s. sr_classroom_id s = cr_id c) studentRows),
          lessons = map (cloud_lesson grades attendance) classroomLessons,
          columns = map (cloud_column classroomLessons)
                      (filter (\<lambda>x. colr_classroom_id x = cr_id c) columnRows),
          nextSid = cr_next_student_id c, nextLid = cr_next_lesson_id c,
          nextCid = cr_next_column_id c\<rparr>)"

text \<open>The object \<^verbatim>\<open>{ classrooms: [] }\<close>.\<close>

definition empty_remote :: store where
  "empty_remote =
     \<lparr>classrooms = [], nextId = None, user = None, lastSync = None, syncStatus = None,
      pendingChanges = None, exportSettings = None, gradeTemplates = None\<rparr>"

text \<open>
  \<^verbatim>\<open>x || null\<close> on a string and on a number that may be null: the empty string and
  0 become null. The object built from the settings row.
\<close>

definition or_null :: "string option \<Rightarrow> string option" where
  "or_null x = (case x of None \<Rightarrow> None | Some s \<Rightarrow> if s = [] then None else Some s)"

definition or_null_num :: "int option \<Rightarrow> int option" where
  "or_null_num x = (case x of None \<Rightarrow> None | Some n \<Rightarrow> if n = 0 then None else Some n)"

definition cloud_settings :: "settings_row \<Rightarrow> export_settings" where
  "cloud_settings x =
     \<lparr>color = (case set_color x of None \<Rightarrow> (30, 60, 50, 100) | Some c \<Rightarrow> c),
      logo = or_null (set_logo_data x), logoName = or_null (set_logo_name x),
      logoSize = or_null_num (set_logo_size x)\<rparr>"

text \<open>
  The body of the \<^verbatim>\<open>try\<close> block of \<^verbatim>\<open>loadUserDataFromSupabase\<close>: \<open>Inl\<close> is an
  exception that leaves the block. The errors of the queries for students, lessons,
  columns, grades and attendance are not looked at; only their \<^verbatim>\<open>data\<close> is read.
\<close>

definition load_try :: "pull_env \<Rightarrow> store \<Rightarrow> js_error + store" where
  "load_try q db =
     (if \<not> checkTableExists (q_check q) then Inr empty_remote
      else case awaited (q_classrooms q) of
        Inl x \<Rightarrow> Inl x
      | Inr (cd, cerr) \<Rightarrow>
      (case awaited (q_settings q) of
        Inl x \<Rightarrow> Inl x
      | Inr (sd, serr) \<Rightarrow>
      (case cerr of
        Some x \<Rightarrow> if message_includes (Some x) ''does not exist'' then Inr empty_remote else Inl x
      | None \<Rightarrow>
      (if or_empty cd = [] then Inr empty_remote
       else
         let classroomIds = map cr_id (or_empty cd) in
         case awaited (q_students q classroomIds) of
           Inl x \<Rightarrow> Inl x
         | Inr (std, ste) \<Rightarrow>
         (case awaited (q_lessons q classroomIds) of
           Inl x \<Rightarrow> Inl x
         | Inr (ld, le) \<Rightarrow>
         (case awaited (q_columns q classroomIds) of
           Inl x \<Rightarrow> Inl x
         | Inr (cold, cole) \<Rightarrow>
         (case load_batches q (batches BATCH_SIZE (map lr_id (or_empty ld))) [] [] of
           Inl x \<Rightarrow> Inl x
         | Inr (grades, attendance) \<Rightarrow>
             let cloudClassrooms =
                   map (cloud_classroom (or_empty std) (or_empty ld) (or_empty cold) grades attendance)
                     (or_empty cd)
             in Inr (empty_remote
                  \<lparr>classrooms := cloudClassrooms,
                   exportSettings := (case sd of
                                        None \<Rightarrow> exportSettings db
                                      | Some x \<Rightarrow> Some (cloud_settings x)),
                   nextId := Some (foldr max
                     (map (\<lambda>c. case parseInt q (takeWhile (\<lambda>ch. ch \<noteq> CHR ''-'') (id' c)) of
                                 None \<Rightarrow> 0 | Some n \<Rightarrow> n) cloudClassrooms) 0 + 1)\<rparr>))))))))"

text \<open>
  \<^verbatim>\<open>loadUserDataFromSupabase\<close>: the \<^verbatim>\<open>catch\<close> clause of the function turns every
  exception of the block into a notification and the empty remote.
\<close>

definition loadUserDataFromSupabase :: "pull_env \<Rightarrow> app \<Rightarrow> js_error + (store \<times> app)" where
  "loadUserDataFromSupabase q a =
     (case load_try q (DB a) of
        Inl x \<Rightarrow> Inr (empty_remote, a\<lparr>trace := trace a @ [Notify RunSetupScript]\<rparr>)
      | Inr r \<Rightarrow> Inr (r, a))"

text \<open>
  The error that the \<^verbatim>\<open>fetch\<close> wrapper of the repository's Supabase client module
  (src/unnamed/part\_000, lines 15 to 19) throws when the network request fails.
\<close>

definition network_error :: js_error where
  "network_error = Error (Some ''Network error - please check your connection'')"

section \<open>The sync (src/app.js, lines 182 to 203)\<close>

text \<open>
  \<^verbatim>\<open>syncWithCloud\<close>: pull, merge, push, local save. The handler of its \<^verbatim>\<open>catch\<close>
  clause (\<open>failed\<close>) sets the status \<^verbatim>\<open>error\<close>, notifies and queues a pending
  marker with no badge.
\<close>

definition syncWithCloud :: "(string \<Rightarrow> int option) \<Rightarrow> pull_env \<Rightarrow> env \<Rightarrow> app \<Rightarrow> app" where
  "syncWithCloud parse q e a =
     (case (if supabase e then remote_user (DB a) else None) of
        None \<Rightarrow> a
      | Some uid \<Rightarrow>
          if syncStatus (DB a) = Some ''syncing'' then a
          else
            let a1 = a\<lparr>DB := (DB a)\<lparr>syncStatus := Some ''syncing''\<rparr>\<rparr>;
                failed = (\<lambda>s. queuePendingChanges (now e) None
                           (s\<lparr>DB := (DB s)\<lparr>syncStatus := Some ''error''\<rparr>,
                              trace := trace s @ [Notify SyncFailed]\<rparr>))
            in case loadUserDataFromSupabase q a1 of
                 Inl x \<Rightarrow> failed a1
               | Inr (cloudData, a2) \<Rightarrow>
                   let a3 = a2\<lparr>DB := mergeData parse (now e) (DB a2) (Some cloudData)\<rparr>
                   in case saveUserDataToSupabase e uid a3 of
                        Inl x \<Rightarrow> failed a3
                      | Inr a4 \<Rightarrow>
                          let a5 = saveToLocalStorage a4
                          in a5\<lparr>DB := (DB a5)\<lparr>lastSync := Some (now e), syncStatus := Some ''idle'',
                                                pendingChanges := Some []\<rparr>\<rparr>)"

section \<open>The handlers of classrooms, students, lessons and attendance\<close>

text \<open>Lookups in the index: the last entry of an id wins.\<close>

definition getC :: "store \<Rightarrow> string \<Rightarrow> classroom option" where
  "getC db k = List.find (\<lambda>c. id' c = k) (rev (classrooms db))"


definition getLesson :: "store \<Rightarrow> string \<Rightarrow> int \<Rightarrow> lesson option" where
  "getLesson db classId lid =
     (case getC db classId of
        None \<Rightarrow> None
      | Some c \<Rightarrow> List.find (\<lambda>l. id' l = lid) (rev (lessons c)))"

definition CC :: "app \<Rightarrow> classroom option" where
  "CC a = (case CID a of None \<Rightarrow> None | Some k \<Rightarrow> getC (DB a) k)"

text \<open>\<^verbatim>\<open>CID && LID ? getLesson(CID, LID) : null\<close>: the empty string and 0 are falsy.\<close>

definition CL :: "app \<Rightarrow> lesson option" where
  "CL a =
     (case CID a of
        None \<Rightarrow> None
      | Some k \<Rightarrow>
          if k = [] then None
          else (case LID a of
                  None \<Rightarrow> None
                | Some l \<Rightarrow> if l = 0 then None else getLesson (DB a) k l))"

text \<open>
  Writes through the object that a lookup returned: the first, or the last, element of a
  list that satisfies \<open>P\<close> is replaced by its image under \<open>f\<close>.
\<close>

fun update_first :: "('a \<Rightarrow> bool) \<Rightarrow> ('a \<Rightarrow> 'a) \<Rightarrow> 'a list \<Rightarrow> 'a list" where
  "update_first P f [] = []"
| "update_first P f (x # xs) = (if P x then f x # xs else x # update_first P f xs)"

definition update_last :: "('a \<Rightarrow> bool) \<Rightarrow> ('a \<Rightarrow> 'a) \<Rightarrow> 'a list \<Rightarrow> 'a list" where
  "update_last P f xs = rev (update_first P f (rev xs))"

definition updateCC :: "(classroom \<Rightarrow> classroom) \<Rightarrow> app \<Rightarrow> app" where
  "updateCC f a =
     (case CID a of
        None \<Rightarrow> a
      | Some k \<Rightarrow>
          a\<lparr>DB := (DB a)\<lparr>classrooms := update_last (\<lambda>c. id' c = k) f (classrooms (DB a))\<rparr>\<rparr>)"

definition updateCL :: "(lesson \<Rightarrow> lesson) \<Rightarrow> app \<Rightarrow> app" where
  "updateCL f a =
     (case LID a of
        None \<Rightarrow> a
      | Some l \<Rightarrow> updateCC (\<lambda>c. c\<lparr>lessons := update_last (\<lambda>x. id' x = l) f (lessons c)\<rparr>) a)"

text \<open>
  The forms: the trimmed value of each input element, \<open>None\<close> when the element is not
  in the page; for the lesson number, the result of \<^verbatim>\<open>parseInt\<close> on the input.
\<close>

record class_form =
  inp_cname :: "string option"
  inp_csub :: "string option"
  inp_cteacher :: "string option"

record student_form =
  inp_sname :: "string option"
  inp_sphone :: "string option"
  inp_semail :: "string option"
  inp_pname :: "string option"
  inp_pphone :: "string option"
  inp_snote :: "string option"

record lesson_form =
  inp_ltopic :: "string option"
  inp_ldate :: "string option"
  inp_lnum :: "int option"

text \<open>
  \<^verbatim>\<open>createClassroom\<close> (lines 601 to 621); \<open>suffix\<close> is the part of the new id
  made of \<^verbatim>\<open>Date.now()\<close> and \<^verbatim>\<open>Math.random()\<close>, after \<^verbatim>\<open>class_\<close>.
\<close>

definition createClassroom :: "env \<Rightarrow> string \<Rightarrow> class_form \<Rightarrow> app \<Rightarrow> app" where
  "createClassroom e suffix form a =
     (case inp_cname form of
        None \<Rightarrow> a
      | Some nm \<Rightarrow>
          if nm = [] then a
          else
            let newClass =
                  \<lparr>id' = ''class_'' @ suffix, updatedAt = Some (now e), name = nm,
                   subject = or_empty (inp_csub form), teacher = or_empty (inp_cteacher form),
                   students = [], lessons = [], columns = [],
                   nextSid = 1, nextLid = 1, nextCid = 1\<rparr>
            in saveDB e ''home'' False
                 (a\<lparr>DB := (DB a)\<lparr>classrooms := classrooms (DB a) @ [newClass]\<rparr>\<rparr>))"

definition openClassroom :: "string \<Rightarrow> app \<Rightarrow> app" where
  "openClassroom k a = a\<lparr>CID := Some k\<rparr>"

definition openAddStudent :: "app \<Rightarrow> app" where
  "openAddStudent a = a\<lparr>editSid := None\<rparr>"

text \<open>\<^verbatim>\<open>saveStudent\<close> (lines 692 to 727).\<close>

definition saveStudent :: "env \<Rightarrow> student_form \<Rightarrow> app \<Rightarrow> app" where
  "saveStudent e form a =
     (case inp_sname form of
        None \<Rightarrow> a
      | Some nm \<Rightarrow>
          if nm = [] then a
          else (case CC a of
                  None \<Rightarrow> a
                | Some c \<Rightarrow>
                    saveDB e ''class'' False
                      (case editSid a of
                         Some editedId \<Rightarrow>
                           updateCC (\<lambda>c. c\<lparr>students :=
                             update_first (\<lambda>s. id' s = editedId)
                               (\<lambda>s. s\<lparr>s_name := nm, phone := or_empty (inp_sphone form),
                                       email := or_empty (inp_semail form),
                                       parentName := or_empty (inp_pname form),
                                       parentPhone := or_empty (inp_pphone form),
                                       s_note := or_empty (inp_snote form),
                                       updatedAt := Some (now e)\<rparr>)
                               (students c)\<rparr>) a
                       | None \<Rightarrow>
                           updateCC (\<lambda>c. c\<lparr>nextSid := nextSid c + 1,
                             students := students c @
                               [\<lparr>id' = nextSid c, updatedAt = Some (now e), s_name = nm,
                                 phone = or_empty (inp_sphone form),
                                 email = or_empty (inp_semail form),
                                 parentName = or_empty (inp_pname form),
                                 parentPhone = or_empty (inp_pphone form),
                                 s_note = or_empty (inp_snote form)\<rparr>]\<rparr>) a)))"

definition IELTS_SECTIONS :: "string list" where
  "IELTS_SECTIONS = [''Listening'', ''Reading'', ''Writing'', ''Speaking'', ''Overall Band'']"

text \<open>
  \<^verbatim>\<open>saveLesson\<close> (lines 901 to 929). The new lesson takes the roster of the moment
  as its \<^verbatim>\<open>studentIds\<close> and an empty \<^verbatim>\<open>data\<close> object.
\<close>

definition saveLesson :: "env \<Rightarrow> lesson_form \<Rightarrow> app \<Rightarrow> app" where
  "saveLesson e form a =
     (case inp_ltopic form of
        None \<Rightarrow> a
      | Some tp \<Rightarrow>
          if tp = [] then a
          else (case CC a of
                  None \<Rightarrow> a
                | Some c \<Rightarrow>
                    let lid = nextLid c;
                        n = (case inp_lnum form of
                               None \<Rightarrow> int (length (lessons c)) + 1
                             | Some k \<Rightarrow> if k = 0 then int (length (lessons c)) + 1 else k);
                        lesson = \<lparr>id' = lid, updatedAt = Some (now e), topic = tp,
                                  date = (case inp_ldate form of None \<Rightarrow> today e | Some d \<Rightarrow> d),
                                  num = n, mode = currentLessonMode a,
                                  studentIds = Some (map id' (students c)),
                                  data = Some []\<rparr>;
                        addColumns = (\<lambda>c. if currentLessonMode a = ''ielts''
                           then foldl (\<lambda>c sec. c\<lparr>nextCid := nextCid c + 1,
                                   columns := columns c @
                                     [\<lparr>id' = nextCid c, updatedAt = Some (now e), col_name = sec,
                                       ielts = True, lessonId = Some lid\<rparr>]\<rparr>)
                                  c (filter (\<lambda>sec. sec \<noteq> ''Overall Band'') IELTS_SECTIONS)
                           else c)
                    in saveDB e ''class'' False
                         ((updateCC (\<lambda>c. (addColumns (c\<lparr>nextLid := nextLid c + 1\<rparr>))
                                            \<lparr>lessons := lessons c @ [lesson]\<rparr>) a)
                            \<lparr>LID := Some lid\<rparr>)))"

text \<open>The decimal string of an integer, as a template string prints it.\<close>

fun string_of_nat :: "nat \<Rightarrow> string" where
  "string_of_nat n =
     (if n < 10 then [''0123456789'' ! n]
      else string_of_nat (n div 10) @ [''0123456789'' ! (n mod 10)])"

definition string_of_int :: "int \<Rightarrow> string" where
  "string_of_int i =
     (if i < 0 then CHR ''-'' # string_of_nat (nat (- i)) else string_of_nat (nat i))"

definition att_key :: "int \<Rightarrow> string" where
  "att_key sid = ''att_'' @ string_of_int sid"

text \<open>\<^verbatim>\<open>setAtt(sid, status)\<close> (lines 1183 to 1192).\<close>

definition setAtt :: "env \<Rightarrow> int \<Rightarrow> string \<Rightarrow> app \<Rightarrow> app" where
  "setAtt e sid status a =
     (case CL a of
        None \<Rightarrow> a
      | Some l \<Rightarrow>
          saveDB e ''lesson'' False
            (updateCL (\<lambda>l. l\<lparr>data := Some (AList.update (att_key sid) status (or_empty (data l))),
                             updatedAt := Some (now e)\<rparr>) a))"

text \<open>\<^verbatim>\<open>studentStats(sid)\<close> (lines 729 to 741).\<close>

record stats =
  present :: nat
  late :: nat
  absent :: nat
  attended :: nat
  total :: nat

definition applies_to :: "int \<Rightarrow> lesson \<Rightarrow> bool" where
  "applies_to sid l = (case studentIds l of None \<Rightarrow> True | Some ids \<Rightarrow> sid \<in> set ids)"

definition att_value :: "int \<Rightarrow> lesson \<Rightarrow> string" where
  "att_value sid l =
     (case map_of (or_empty (data l)) (att_key sid) of
        None \<Rightarrow> ''present''
      | Some v \<Rightarrow> if v = [] then ''present'' else v)"

definition studentStats :: "int \<Rightarrow> app \<Rightarrow> stats" where
  "studentStats sid a =
     (case CC a of
        None \<Rightarrow> \<lparr>present = 0, late = 0, absent = 0, attended = 0, total = 0\<rparr>
      | Some c \<Rightarrow>
          let (p, l, ab) =
                foldl (\<lambda>(p, l, ab) x.
                         if \<not> applies_to sid x then (p, l, ab)
                         else if att_value sid x = ''present'' then (p + 1, l, ab)
                         else if att_value sid x = ''late'' then (p, l + 1, ab)
                         else (p, l, ab + 1))
                  (0, 0, 0) (lessons c)
          in \<lparr>present = p, late = l, absent = ab, attended = p + l,
              total = length (filter (applies_to sid) (lessons c))\<rparr>)"


text \<open>
  Between two actions of the user the debounce timer may fire: \<open>tick (Some e)\<close> is
  the timer firing in the environment \<open>e\<close>, \<open>tick None\<close> is no firing.
\<close>

definition tick :: "env option \<Rightarrow> app \<Rightarrow> app" where
  "tick e a = (case e of None \<Rightarrow> a | Some e \<Rightarrow> timer_fires e a)"

text \<open>
  Two states have the same document when they agree on the classrooms and on the module
  variables that the handlers of classrooms, students, lessons and attendance read.
\<close>

definition same_document :: "app \<Rightarrow> app \<Rightarrow> bool" where
  "same_document a b =
     (classrooms (DB a) = classrooms (DB b) \<and> CID a = CID b \<and> LID a = LID b
      \<and> editSid a = editSid b \<and> currentLessonMode a = currentLessonMode b)"

section \<open>Sample data\<close>

text \<open>
  Two readings of \<^verbatim>\<open>Date.parse\<close>, and a local and a remote store that share the
  classrooms \<^verbatim>\<open>class_1\<close> (newer on the remote side) and \<^verbatim>\<open>class_2\<close> (newer on the
  local side).
\<close>

definition Date_parse_sample :: "string \<Rightarrow> int option" where
  "Date_parse_sample s =
     (if s = ''2024-01-01T00:00:00Z'' then Some 1704067200000
      else if s = ''2024-01-02T00:00:00Z'' then Some 1704153600000
      else None)"

definition pupil :: "int \<Rightarrow> string \<Rightarrow> string \<Rightarrow> student" where
  "pupil k nm u = \<lparr>id' = k, updatedAt = Some u, s_name = nm, phone = [], email = [],
     parentName = [], parentPhone = [], s_note = []\<rparr>"

definition room :: "string \<Rightarrow> string \<Rightarrow> string \<Rightarrow> student list \<Rightarrow> lesson list \<Rightarrow> classroom" where
  "room k nm u ss ls = \<lparr>id' = k, updatedAt = Some u, name = nm, subject = [], teacher = [],
     students = ss, lessons = ls, columns = [], nextSid = 3, nextLid = 2, nextCid = 1\<rparr>"

definition quiz :: lesson where
  "quiz = \<lparr>id' = 1, updatedAt = Some ''2024-01-02T00:00:00Z'', topic = ''Quiz'',
     date = ''2024-01-02'', num = 1, mode = ''standard'', studentIds = Some [1, 2],
     data = Some [(''att_2'', ''late'')]\<rparr>"

definition store_of :: "classroom list \<Rightarrow> store" where
  "store_of cs = \<lparr>classrooms = cs, nextId = Some 1, user = None, lastSync = None,
     syncStatus = Some ''idle'', pendingChanges = Some [], exportSettings = None,
     gradeTemplates = Some []\<rparr>"

definition ada :: student where
  "ada = pupil 1 ''Ada'' ''2024-01-01T00:00:00Z''"

definition ada_edited :: student where
  "ada_edited = pupil 1 ''Ada L.'' ''2024-01-02T00:00:00Z''"

definition bob :: student where
  "bob = pupil 2 ''Bob'' ''2024-01-02T00:00:00Z''"

definition local_store :: store where
  "local_store = store_of
     [room ''class_1'' ''Maths'' ''2024-01-01T00:00:00Z'' [ada] [],
      room ''class_2'' ''Physics'' ''2024-01-02T00:00:00Z'' [ada] [],
      room ''class_3'' ''Latin'' ''2024-01-01T00:00:00Z'' [] []]"

definition remote_store :: store where
  "remote_store = store_of
     [room ''class_1'' ''Mathematics'' ''2024-01-02T00:00:00Z'' [ada_edited, bob] [quiz],
      room ''class_2'' ''Physics I'' ''2024-01-01T00:00:00Z'' [ada, bob] [],
      room ''class_4'' ''Greek'' ''2024-01-01T00:00:00Z'' [] []]"


text \<open>
  The state of the program when it starts (lines 42 to 47 and the declarations of the
  module variables), and the same state for a user who signed in with Supabase.
\<close>

definition initial_DB :: store where
  "initial_DB =
     \<lparr>classrooms = [], nextId = Some 1, user = None, lastSync = None, syncStatus = Some ''idle'',
      pendingChanges = Some [],
      exportSettings = Some \<lparr>color = (30, 60, 50, 100), logo = None, logoName = None, logoSize = None\<rparr>,
      gradeTemplates = Some []\<rparr>"

definition initial_app :: app where
  "initial_app =
     \<lparr>DB = initial_DB, CID = None, LID = None, editSid = None, currentLessonMode = ''standard'',
      saveQueue = [], timer = None, trace = []\<rparr>"

definition signed_in_app :: app where
  "signed_in_app =
     initial_app\<lparr>DB := initial_DB\<lparr>user := Some \<lparr>user_id = Some ''u1'', user_mode = ''supabase''\<rparr>\<rparr>\<rparr>"

text \<open>An environment without connectivity, and one where every upsert succeeds.\<close>

definition offline_env :: env where
  "offline_env =
     \<lparr>onLine = False, supabase = True, now = ''2024-03-01T09:00:00.000Z'', today = ''2024-03-01'',
      upsert_result = (\<lambda>r. Rejected network_error)\<rparr>"

definition online_env :: env where
  "online_env =
     \<lparr>onLine = True, supabase = True, now = ''2024-03-01T09:00:00.000Z'', today = ''2024-03-01'',
      upsert_result = (\<lambda>r. Resolved (Some r) None)\<rparr>"

text \<open>Sixty calls of \<^verbatim>\<open>queuePendingChanges\<close>, the clock reading of call \<open>i\<close> being \<open>i\<close>.\<close>

definition sixty_markers :: "(string \<times> string option) list" where
  "sixty_markers = map (\<lambda>i. (string_of_nat i, Some ''class'')) [1..<61]"

text \<open>A row of the remote table that belongs to another user.\<close>

definition other_row :: classroom_row where
  "other_row =
     \<lparr>cr_id = ''class_9'', cr_user_id = ''u2'', cr_name = ''History'', cr_subject = None,
      cr_teacher_name = None, cr_next_student_id = 1, cr_next_lesson_id = 1,
      cr_next_column_id = 1, cr_updated_at = None\<rparr>"

text \<open>
  Answers of the backend to a pull: every query after the table check is rejected with the
  network error; the table check has the given response. Two errors of the backend.
\<close>

definition pull_rejecting :: "classroom_row list response \<Rightarrow> pull_env" where
  "pull_rejecting check =
     \<lparr>q_check = check, q_classrooms = Rejected network_error, q_settings = Rejected network_error,
      q_students = (\<lambda>ids. Rejected network_error), q_lessons = (\<lambda>ids. Rejected network_error),
      q_columns = (\<lambda>ids. Rejected network_error), q_grades = (\<lambda>ids. Rejected network_error),
      q_attendance = (\<lambda>ids. Rejected network_error), parseInt = (\<lambda>s. None)\<rparr>"

definition missing_table :: js_error where
  "missing_table = Error (Some ''relation public.classrooms does not exist'')"

definition permission_denied :: js_error where
  "permission_denied = Error (Some ''permission denied for table classrooms'')"

text \<open>
  Answers of the backend to a pull where the tables exist and the user has one classroom
  row, and the query for the students resolves with an error and no data: the
  \<^verbatim>\<open>students\<close> table is missing. The other queries succeed with no rows.
\<close>

definition maths_row :: classroom_row where
  "maths_row =
     \<lparr>cr_id = ''class_1'', cr_user_id = ''u1'', cr_name = ''Maths'', cr_subject = None,
      cr_teacher_name = None, cr_next_student_id = 3, cr_next_lesson_id = 2,
      cr_next_column_id = 1, cr_updated_at = Some ''2024-01-01T00:00:00Z''\<rparr>"

definition missing_students_table :: js_error where
  "missing_students_table = Error (Some ''relation public.students does not exist'')"

definition pull_students_failing :: pull_env where
  "pull_students_failing =
     \<lparr>q_check = Resolved (Some [maths_row]) None, q_classrooms = Resolved (Some [maths_row]) None,
      q_settings = Resolved None None,
      q_students = (\<lambda>ids. Resolved None (Some missing_students_table)),
      q_lessons = (\<lambda>ids. Resolved (Some []) None), q_columns = (\<lambda>ids. Resolved (Some []) None),
      q_grades = (\<lambda>ids. Resolved (Some []) None), q_attendance = (\<lambda>ids. Resolved (Some []) None),
      parseInt = (\<lambda>s. None)\<rparr>"



text \<open>The forms of the scenario: a classroom, the student Ada and a first lesson.\<close>

definition ada_form :: student_form where
  "ada_form = \<lparr>inp_sname = Some ''Ada'', inp_sphone = Some [], inp_semail = Some [],
     inp_pname = Some [], inp_pphone = Some [], inp_snote = Some []\<rparr>"

definition maths_form :: class_form where
  "maths_form = \<lparr>inp_cname = Some ''Maths'', inp_csub = Some [], inp_cteacher = Some []\<rparr>"

definition first_lesson_form :: lesson_form where
  "first_lesson_form = \<lparr>inp_ltopic = Some ''Fractions'', inp_ldate = Some ''2024-03-01'', inp_lnum = None\<rparr>"

text \<open>A signed-in user with the classrooms of the local store and one pending marker.\<close>

definition signed_in_class_app :: app where
  "signed_in_class_app =
     signed_in_app\<lparr>DB := (DB signed_in_app)\<lparr>classrooms := classrooms local_store,
        pendingChanges := Some [\<lparr>timestamp = ''2024-02-29T18:00:00.000Z'', ctx = ''class''\<rparr>]\<rparr>\<rparr>"

text \<open>The backend that applies exactly the requests it answers without error.\<close>

definition applied_iff_ok :: "classroom_row response \<Rightarrow> bool" where
  "applied_iff_ok resp = (case resp of Resolved d None \<Rightarrow> True | Resolved d (Some x) \<Rightarrow> False | Rejected x \<Rightarrow> False)"

text \<open>
  Two stores that share one classroom: the local copy of the classroom is the newer one,
  the remote copy holds the newer copy of the student Ada.
\<close>

definition tie_local :: store where
  "tie_local = store_of [room ''class_1'' ''Maths'' ''2024-01-02T00:00:00Z'' [ada] []]"

definition tie_remote :: store where
  "tie_remote = store_of [room ''class_1'' ''Mathematics'' ''2024-01-01T00:00:00Z'' [ada_edited] []]"

section \<open>Properties of the JavaScript helpers\<close>

lemmas sample_defs = local_store_def remote_store_def store_of_def room_def pupil_def ada_def
  ada_edited_def bob_def quiz_def Date_parse_sample_def

lemmas merge_defs = mergeData_def new_Map_def new_Set_def mergeClassroom_def newer_def js_gt_def
  getTime_def mergeArrayById_def


lemma foldl_update_map_of:
  "map_of (foldl (\<lambda>m (k, v). AList.update k v m) acc es) = map_of acc ++ map_of (rev es)"
proof (induction es arbitrary: acc)
  case Nil
  show ?case by simp
next
  case (Cons e es)
  obtain k v where e: "e = (k, v)" by (cases e)
  show ?case
    by (rule ext) (simp add: e Cons.IH update_conv' map_add_def split: option.splits)
qed

lemma foldl_update_keys:
  "fst ` set (foldl (\<lambda>m (k, v). AList.update k v m) acc es) = fst ` set acc \<union> fst ` set es"
proof (induction es arbitrary: acc)
  case Nil
  show ?case by simp
next
  case (Cons e es)
  obtain k v where e: "e = (k, v)" by (cases e)
  show ?case
    by (simp add: e Cons.IH dom_update)
qed

lemma foldl_update_distinct:
  "distinct (map fst acc) \<Longrightarrow> distinct (map fst (foldl (\<lambda>m (k, v). AList.update k v m) acc es))"
proof (induction es arbitrary: acc)
  case Nil
  then show ?case by simp
next
  case (Cons e es)
  obtain k v where e: "e = (k, v)" by (cases e)
  show ?case
    using Cons.prems by (simp add: e Cons.IH distinct_update)
qed

lemma update_fresh: "k \<notin> fst ` set al \<Longrightarrow> AList.update k v al = al @ [(k, v)]"
  by (induction al) auto

lemma foldl_update_fresh:
  "distinct (map fst (acc @ es)) \<Longrightarrow> foldl (\<lambda>m (k, v). AList.update k v m) acc es = acc @ es"
proof (induction es arbitrary: acc)
  case Nil
  show ?case by simp
next
  case (Cons e es)
  obtain k v where e: "e = (k, v)" by (cases e)
  have fresh: "k \<notin> fst ` set acc" using Cons.prems by (auto simp: e)
  have "distinct (map fst ((acc @ [(k, v)]) @ es))" using Cons.prems by (auto simp: e)
  from Cons.IH [OF this] show ?case by (simp add: e update_fresh [OF fresh])
qed

lemma new_Map_map_of: "map_of (new_Map es) = map_of (rev es)"
  by (simp add: new_Map_def foldl_update_map_of)

lemma new_Map_keys: "fst ` set (new_Map es) = fst ` set es"
  by (simp add: new_Map_def foldl_update_keys)

lemma new_Map_distinct: "distinct (map fst (new_Map es))"
  by (simp add: new_Map_def foldl_update_distinct)

lemma new_Map_ident: "distinct (map fst es) \<Longrightarrow> new_Map es = es"
  using foldl_update_fresh [of "[]" es] by (simp add: new_Map_def)

lemma foldl_set_add_set:
  "set (foldl (\<lambda>s x. if x \<in> set s then s else s @ [x]) acc xs) = set acc \<union> set xs"
  by (induction xs arbitrary: acc) auto

lemma foldl_set_add_distinct:
  "distinct acc \<Longrightarrow> distinct (foldl (\<lambda>s x. if x \<in> set s then s else s @ [x]) acc xs)"
  by (induction xs arbitrary: acc) auto


lemma new_Set_set: "set (new_Set xs) = set xs"
  by (simp add: new_Set_def foldl_set_add_set)

lemma new_Set_distinct: "distinct (new_Set xs)"
  by (simp add: new_Set_def foldl_set_add_distinct)

lemma foldl_set_add_fresh:
  "distinct (acc @ xs) \<Longrightarrow> foldl (\<lambda>s x. if x \<in> set s then s else s @ [x]) acc xs = acc @ xs"
  by (induction xs arbitrary: acc) auto

lemma foldl_set_add_known:
  "set xs \<subseteq> set acc \<Longrightarrow> foldl (\<lambda>s x. if x \<in> set s then s else s @ [x]) acc xs = acc"
  by (induction xs arbitrary: acc) auto

lemma new_Set_twice: "distinct xs \<Longrightarrow> new_Set (xs @ xs) = xs"
  by (simp add: new_Set_def foldl_set_add_fresh foldl_set_add_known)

lemma new_Set_ident: "distinct xs \<Longrightarrow> new_Set xs = xs"
  using foldl_set_add_fresh [of "[]" xs] by (simp add: new_Set_def)

section \<open>Properties of the merge\<close>

lemma entries_map_of_Some:
  "distinct (map id' xs) \<Longrightarrow> x \<in> set xs \<Longrightarrow> map_of (new_Map (map (\<lambda>i. (id' i, i)) xs)) (id' x) = Some x"
proof -
  assume d: "distinct (map id' xs)" and x: "x \<in> set xs"
  have d': "distinct (map fst (map (\<lambda>i. (id' i, i)) xs))" using d by (simp add: comp_def)
  have "(id' x, x) \<in> set (map (\<lambda>i. (id' i, i)) xs)" using x by auto
  with d' show ?thesis by (simp add: new_Map_ident [OF d'])
qed

lemma entries_map_of_None:
  "k \<notin> id' ` set xs \<Longrightarrow> map_of (new_Map (map (\<lambda>i. (id' i, i)) xs)) k = None"
proof -
  assume "k \<notin> id' ` set xs"
  then have "k \<notin> fst ` set (new_Map (map (\<lambda>i. (id' i, i)) xs))"
    by (simp add: new_Map_keys image_comp comp_def)
  then show ?thesis by (simp add: map_of_eq_None_iff)
qed

lemma entries_map_of_D:
  "map_of (new_Map (map (\<lambda>i. (id' i, i)) xs)) k = Some x \<Longrightarrow> x \<in> set xs \<and> id' x = k"
proof -
  assume "map_of (new_Map (map (\<lambda>i. (id' i, i)) xs)) k = Some x"
  then have "map_of (rev (map (\<lambda>i. (id' i, i)) xs)) k = Some x" by (simp add: new_Map_map_of)
  then have "(k, x) \<in> set (rev (map (\<lambda>i. (id' i, i)) xs))" by (rule map_of_SomeD)
  then show ?thesis by auto
qed

lemma entries_keys:
  "fst ` set (new_Map (map (\<lambda>i. (id' i, i)) xs)) = id' ` set xs"
  by (simp add: new_Map_keys image_comp comp_def)

lemma mergeClassroom_append:
  "mergeClassroom parse lm rm merged k = merged @ mergeClassroom parse lm rm [] k"
  by (simp add: mergeClassroom_def split: option.splits)

lemma foldl_mergeClassroom:
  "foldl (mergeClassroom parse lm rm) acc ks = acc @ concat (map (mergeClassroom parse lm rm []) ks)"
proof (induction ks arbitrary: acc)
  case Nil
  show ?case by simp
next
  case (Cons k ks)
  have "foldl (mergeClassroom parse lm rm) acc (k # ks)
          = foldl (mergeClassroom parse lm rm) (acc @ mergeClassroom parse lm rm [] k) ks"
    using mergeClassroom_append [of parse lm rm acc k] by simp
  then show ?case by (simp add: Cons.IH)
qed

lemma mergeData_classrooms:
  "classrooms (mergeData parse t local (Some remote)) =
     concat (map (mergeClassroom parse (new_Map (map (\<lambda>c. (id' c, c)) (classrooms local)))
                                       (new_Map (map (\<lambda>c. (id' c, c)) (classrooms remote))) [])
       (new_Set (map fst (new_Map (map (\<lambda>c. (id' c, c)) (classrooms local)))
               @ map fst (new_Map (map (\<lambda>c. (id' c, c)) (classrooms remote))))))"
  by (simp add: mergeData_def Let_def foldl_mergeClassroom)

lemma mergeData_classrooms_iff:
  "m \<in> set (classrooms (mergeData parse t local (Some remote))) \<longleftrightarrow>
     (\<exists>k \<in> id' ` set (classrooms local) \<union> id' ` set (classrooms remote).
        m \<in> set (mergeClassroom parse (new_Map (map (\<lambda>c. (id' c, c)) (classrooms local)))
                                       (new_Map (map (\<lambda>c. (id' c, c)) (classrooms remote))) [] k))"
  unfolding mergeData_classrooms set_concat set_map new_Set_set set_append entries_keys
  by blast

lemma mergeClassroom_id:
  "m \<in> set (mergeClassroom parse (new_Map (map (\<lambda>c. (id' c, c)) ls)) (new_Map (map (\<lambda>c. (id' c, c)) rs)) [] k)
    \<Longrightarrow> id' m = k"
  by (auto simp: mergeClassroom_def split: option.splits if_splits
      dest: entries_map_of_D entries_map_of_D [OF sym])

lemma mergeArrayById_distinct_form:
  assumes dl: "distinct (map id' ls)" and dr: "distinct (map id' rs)"
  shows "mergeArrayById parse ls rs =
           map (\<lambda>li. case map_of (map (\<lambda>i. (id' i, i)) rs) (id' li) of
                         Some ri \<Rightarrow> if newer parse ri li then ri else li
                       | None \<Rightarrow> li) ls
           @ filter (\<lambda>ri. id' ri \<notin> id' ` set ls) rs"
proof -
  have l: "new_Map (map (\<lambda>i. (id' i, i)) ls) = map (\<lambda>i. (id' i, i)) ls"
    using dl by (intro new_Map_ident) (simp add: comp_def)
  have r: "new_Map (map (\<lambda>i. (id' i, i)) rs) = map (\<lambda>i. (id' i, i)) rs"
    using dr by (intro new_Map_ident) (simp add: comp_def)
  have none: "\<And>k. (map_of (map (\<lambda>i. (id' i, i)) ls) k = None) = (k \<notin> id' ` set ls)"
    by (simp add: map_of_eq_None_iff image_comp comp_def)
  show ?thesis
    by (simp add: mergeArrayById_def Let_def l r comp_def filter_map none)
qed

lemma map_of_entries_Some:
  "distinct (map id' xs) \<Longrightarrow> x \<in> set xs \<Longrightarrow> map_of (map (\<lambda>i. (id' i, i)) xs) (id' x) = Some x"
  by (rule map_of_is_SomeI) (auto simp: comp_def)

lemma map_of_entries_None:
  "k \<notin> id' ` set xs \<Longrightarrow> map_of (map (\<lambda>i. (id' i, i)) xs) k = None"
  by (simp add: map_of_eq_None_iff image_comp comp_def)

lemma map_of_entries_D:
  "map_of (map (\<lambda>i. (id' i, i)) xs) k = Some x \<Longrightarrow> x \<in> set xs \<and> id' x = k"
  by (auto dest: map_of_SomeD)

lemma mergeArrayById_local_only:
  assumes "distinct (map id' ls)" "distinct (map id' rs)" "li \<in> set ls" "id' li \<notin> id' ` set rs"
  shows "li \<in> set (mergeArrayById parse ls rs)"
proof -
  let ?f = "\<lambda>li. case map_of (map (\<lambda>i. (id' i, i)) rs) (id' li) of
           Some ri \<Rightarrow> if newer parse ri li then ri else li | None \<Rightarrow> li"
  have "?f li = li"
    using assms(4) by (simp add: map_of_entries_None)
  moreover have "?f li \<in> set (map ?f ls)"
    using assms(3) by (simp only: set_map) (rule imageI)
  ultimately have "li \<in> set (map ?f ls)" by simp
  then show ?thesis
    by (simp only: mergeArrayById_distinct_form [OF assms(1,2)] set_append Un_iff) simp
qed

lemma mergeArrayById_remote_only:
  assumes "distinct (map id' ls)" "distinct (map id' rs)" "ri \<in> set rs" "id' ri \<notin> id' ` set ls"
  shows "ri \<in> set (mergeArrayById parse ls rs)"
  unfolding mergeArrayById_distinct_form [OF assms(1,2)] using assms(3,4) by simp

lemma mergeArrayById_both:
  assumes "distinct (map id' ls)" "distinct (map id' rs)" "li \<in> set ls" "ri \<in> set rs"
    and "id' li = id' ri"
  shows "(if newer parse ri li then ri else li) \<in> set (mergeArrayById parse ls rs)"
proof -
  let ?f = "\<lambda>li. case map_of (map (\<lambda>i. (id' i, i)) rs) (id' li) of
           Some ri \<Rightarrow> if newer parse ri li then ri else li | None \<Rightarrow> li"
  have "?f li = (if newer parse ri li then ri else li)"
    using map_of_entries_Some [OF assms(2,4)] assms(5) by simp
  moreover have "?f li \<in> set (map ?f ls)"
    using assms(3) by (simp only: set_map) (rule imageI)
  ultimately have "(if newer parse ri li then ri else li) \<in> set (map ?f ls)" by simp
  then show ?thesis
    by (simp only: mergeArrayById_distinct_form [OF assms(1,2)] set_append Un_iff) simp
qed

lemma mergeArrayById_ids:
  assumes "distinct (map id' ls)" "distinct (map id' rs)"
  shows "map id' (mergeArrayById parse ls rs) = map id' ls @ filter (\<lambda>k. k \<notin> id' ` set ls) (map id' rs)"
proof -
  have "\<And>li. id' (case map_of (map (\<lambda>i. (id' i, i)) rs) (id' li) of
           Some ri \<Rightarrow> if newer parse ri li then ri else li | None \<Rightarrow> li) = id' li"
    by (auto split: option.splits dest: map_of_entries_D)
  then show ?thesis
    unfolding mergeArrayById_distinct_form [OF assms] by (simp add: comp_def filter_map)
qed

lemma mergeArrayById_distinct:
  assumes "distinct (map id' ls)" "distinct (map id' rs)"
  shows "distinct (map id' (mergeArrayById parse ls rs))"
  unfolding mergeArrayById_ids [OF assms] using assms by auto

lemma distinct_ids_unique:
  "distinct (map f xs) \<Longrightarrow> x \<in> set xs \<Longrightarrow> y \<in> set xs \<Longrightarrow> f x = f y \<Longrightarrow> x = y"
  by (meson distinct_map inj_onD)

lemma mergeArrayById_unique:
  assumes "distinct (map id' ls)" "distinct (map id' rs)" "li \<in> set ls" "ri \<in> set rs"
    and "id' li = id' ri" and "m \<in> set (mergeArrayById parse ls rs)" and "id' m = id' li"
  shows "m = (if newer parse ri li then ri else li)"
proof (rule distinct_ids_unique [OF mergeArrayById_distinct [OF assms(1,2)] assms(6)])
  show "(if newer parse ri li then ri else li) \<in> set (mergeArrayById parse ls rs)"
    by (rule mergeArrayById_both [OF assms(1-5)])
  show "id' m = id' (if newer parse ri li then ri else li)"
    using assms(5,7) by simp
qed

lemma mergeClassroom_local_only:
  assumes "distinct (map id' ls)" "lc \<in> set ls" "id' lc \<notin> id' ` set rs"
  shows "mergeClassroom parse (new_Map (map (\<lambda>c. (id' c, c)) ls)) (new_Map (map (\<lambda>c. (id' c, c)) rs)) [] (id' lc) = [lc]"
  using entries_map_of_Some [OF assms(1,2)] entries_map_of_None [OF assms(3)]
  by (simp add: mergeClassroom_def)

lemma mergeClassroom_remote_only:
  assumes "distinct (map id' rs)" "rc \<in> set rs" "id' rc \<notin> id' ` set ls"
  shows "mergeClassroom parse (new_Map (map (\<lambda>c. (id' c, c)) ls)) (new_Map (map (\<lambda>c. (id' c, c)) rs)) [] (id' rc) = [rc]"
  using entries_map_of_Some [OF assms(1,2)] entries_map_of_None [OF assms(3)]
  by (simp add: mergeClassroom_def)

lemma mergeClassroom_both:
  assumes "distinct (map id' ls)" "distinct (map id' rs)" "lc \<in> set ls" "rc \<in> set rs" "id' lc = id' rc"
  shows "mergeClassroom parse (new_Map (map (\<lambda>c. (id' c, c)) ls)) (new_Map (map (\<lambda>c. (id' c, c)) rs)) [] (id' lc)
         = [if newer parse rc lc
            then rc\<lparr>students := mergeArrayById parse (students lc) (students rc),
                    lessons := mergeArrayById parse (lessons lc) (lessons rc)\<rparr>
            else lc]"
  using entries_map_of_Some [OF assms(1,3)] entries_map_of_Some [OF assms(2,4)] assms(5)
  by (simp add: mergeClassroom_def)

lemma mergeData_local_only:
  assumes "distinct (map id' (classrooms local))" "lc \<in> set (classrooms local)"
    and "id' lc \<notin> id' ` set (classrooms remote)"
  shows "lc \<in> set (classrooms (mergeData parse t local (Some remote)))"
  unfolding mergeData_classrooms_iff
  using mergeClassroom_local_only [OF assms, of parse] assms(2) by (intro bexI [of _ "id' lc"]) auto

lemma mergeData_remote_only:
  assumes "distinct (map id' (classrooms remote))" "rc \<in> set (classrooms remote)"
    and "id' rc \<notin> id' ` set (classrooms local)"
  shows "rc \<in> set (classrooms (mergeData parse t local (Some remote)))"
  unfolding mergeData_classrooms_iff
  using mergeClassroom_remote_only [OF assms, of parse] assms(2) by (intro bexI [of _ "id' rc"]) auto

lemma mergeData_both:
  assumes "distinct (map id' (classrooms local))" "distinct (map id' (classrooms remote))"
    and "lc \<in> set (classrooms local)" "rc \<in> set (classrooms remote)" "id' lc = id' rc"
  shows "(if newer parse rc lc
            then rc\<lparr>students := mergeArrayById parse (students lc) (students rc),
                    lessons := mergeArrayById parse (lessons lc) (lessons rc)\<rparr>
            else lc) \<in> set (classrooms (mergeData parse t local (Some remote)))"
  unfolding mergeData_classrooms_iff
  using mergeClassroom_both [OF assms, of parse] assms(3) by (intro bexI [of _ "id' lc"]) auto

lemma mergeClassroom_single:
  assumes "k \<in> id' ` set ls \<union> id' ` set rs"
  shows "map id' (mergeClassroom parse (new_Map (map (\<lambda>c. (id' c, c)) ls))
                   (new_Map (map (\<lambda>c. (id' c, c)) rs)) [] k) = [k]"
proof -
  let ?lm = "new_Map (map (\<lambda>c. (id' c, c)) ls)" and ?rm = "new_Map (map (\<lambda>c. (id' c, c)) rs)"
  have "map_of ?lm k \<noteq> None \<or> map_of ?rm k \<noteq> None"
    using assms by (simp add: map_of_eq_None_iff entries_keys)
  then show ?thesis
    by (auto simp: mergeClassroom_def split: option.splits dest: entries_map_of_D)
qed

lemma concat_single_ids:
  "(\<And>k. k \<in> set ks \<Longrightarrow> map f (g k) = [k]) \<Longrightarrow> map f (concat (map g ks)) = ks"
  by (induction ks) auto

lemma mergeData_ids:
  "map id' (classrooms (mergeData parse t local (Some remote)))
     = new_Set (map fst (new_Map (map (\<lambda>c. (id' c, c)) (classrooms local)))
              @ map fst (new_Map (map (\<lambda>c. (id' c, c)) (classrooms remote))))"
  unfolding mergeData_classrooms
proof (rule concat_single_ids)
  fix k
  assume "k \<in> set (new_Set (map fst (new_Map (map (\<lambda>c. (id' c, c)) (classrooms local)))
              @ map fst (new_Map (map (\<lambda>c. (id' c, c)) (classrooms remote)))))"
  then have "k \<in> id' ` set (classrooms local) \<union> id' ` set (classrooms remote)"
    by (simp add: new_Set_set entries_keys)
  then show "map id' (mergeClassroom parse (new_Map (map (\<lambda>c. (id' c, c)) (classrooms local)))
        (new_Map (map (\<lambda>c. (id' c, c)) (classrooms remote))) [] k) = [k]"
    by (rule mergeClassroom_single)
qed

lemma mergeData_distinct:
  "distinct (map id' (classrooms (mergeData parse t local (Some remote))))"
  by (simp only: mergeData_ids new_Set_distinct)

lemma js_gt_irrefl: "\<not> js_gt x x"
  by (simp add: js_gt_def split: option.splits)

lemma js_gt_asym: "js_gt x y \<Longrightarrow> \<not> js_gt y x"
  by (auto simp: js_gt_def split: option.splits)

lemma concat_ids_self:
  "(\<And>c. c \<in> set cs \<Longrightarrow> g (f c) = [c]) \<Longrightarrow> concat (map g (map f cs)) = cs"
  by (induction cs) auto

lemma mergeData_self_classrooms:
  assumes d: "distinct (map id' (classrooms X))"
  shows "classrooms (mergeData parse t X (Some X)) = classrooms X"
proof -
  have d': "distinct (map fst (map (\<lambda>c. (id' c, c)) (classrooms X)))"
    using d by (simp add: comp_def)
  have keys: "map fst (new_Map (map (\<lambda>c. (id' c, c)) (classrooms X))) = map id' (classrooms X)"
    by (simp add: new_Map_ident [OF d'] comp_def)
  have one: "\<And>c. c \<in> set (classrooms X) \<Longrightarrow>
      mergeClassroom parse (new_Map (map (\<lambda>c. (id' c, c)) (classrooms X)))
        (new_Map (map (\<lambda>c. (id' c, c)) (classrooms X))) [] (id' c) = [c]"
    using mergeClassroom_both [OF d d, of _ _ parse]
    by (simp add: newer_def js_gt_irrefl)
  show ?thesis
    unfolding mergeData_classrooms keys new_Set_twice [OF d]
    by (rule concat_ids_self) (rule one)
qed

lemma filter_unique_id:
  "distinct (map f xs) \<Longrightarrow> x \<in> set xs \<Longrightarrow> filter (\<lambda>m. f m = f x) xs = [x]"
proof (induction xs)
  case Nil
  then show ?case by simp
next
  case (Cons y ys)
  show ?case
  proof (cases "y = x")
    case True
    have "filter (\<lambda>m. f m = f x) ys = []"
      using Cons.prems True by (force simp: filter_empty_conv image_iff)
    then show ?thesis using True by simp
  next
    case False
    then have "x \<in> set ys" using Cons.prems by simp
    moreover have "f y \<noteq> f x" using Cons.prems \<open>x \<in> set ys\<close> by auto
    ultimately show ?thesis using Cons by simp
  qed
qed

lemma mergeData_both_unique:
  assumes dl: "distinct (map id' (classrooms local))"
    and dr: "distinct (map id' (classrooms remote))"
    and lc: "lc \<in> set (classrooms local)" and rc: "rc \<in> set (classrooms remote)"
    and same: "id' lc = id' rc"
  shows "filter (\<lambda>m. id' m = id' lc) (classrooms (mergeData parse t local (Some remote)))
           = [if newer parse rc lc
              then rc\<lparr>students := mergeArrayById parse (students lc) (students rc),
                      lessons := mergeArrayById parse (lessons lc) (lessons rc)\<rparr>
              else lc]"
proof -
  let ?M = "classrooms (mergeData parse t local (Some remote))"
  let ?w = "if newer parse rc lc
              then rc\<lparr>students := mergeArrayById parse (students lc) (students rc),
                      lessons := mergeArrayById parse (lessons lc) (lessons rc)\<rparr>
              else lc"
  have w: "?w \<in> set ?M" by (rule mergeData_both [OF dl dr lc rc same])
  have idw: "id' ?w = id' lc" using same by simp
  show ?thesis
    using filter_unique_id [OF mergeData_distinct w] idw by (simp only:)
qed

lemma child_tie_break:
  assumes dls: "distinct (map id' ls)" and drs: "distinct (map id' rs)"
    and li: "li \<in> set ls" and ri: "ri \<in> set rs" and same: "id' li = id' ri"
  shows "filter (\<lambda>x. id' x = id' li) (if deep then mergeArrayById parse ls rs else ls)
           = [if deep \<and> newer parse ri li then ri else li]"
proof (cases deep)
  case True
  let ?v = "if newer parse ri li then ri else li"
  have v: "?v \<in> set (mergeArrayById parse ls rs)"
    by (rule mergeArrayById_both [OF dls drs li ri same])
  have idv: "id' ?v = id' li" using same by simp
  have "filter (\<lambda>x. id' x = id' li) (mergeArrayById parse ls rs) = [?v]"
    using filter_unique_id [OF mergeArrayById_distinct [OF dls drs] v] idv by (simp only:)
  then show ?thesis using True by simp
next
  case False
  then show ?thesis using filter_unique_id [OF dls li] by simp
qed

section \<open>Claims about the merge\<close>

text \<open>
  C1, as the code has it. The ids of the merged classrooms are the ids of the classrooms
  of both sides. For stores whose classroom ids are unique on each side: a classroom that
  only one side has is in the merge. For a classroom that both sides have, the merge has
  exactly one classroom of that id. When the remote copy is not strictly newer, it is the
  local copy as it stands, with its own children only: the children that only the remote
  copy has are not carried over. When the remote copy is strictly newer, it is the remote
  copy with the students and lessons of both copies merged by \<^verbatim>\<open>mergeArrayById\<close>,
  and, when the ids of the students (of the lessons) are unique within each copy, every
  student (lesson) that only one of the two copies has is among them.
\<close>

theorem merge_keeps_entities:
  assumes dl: "distinct (map id' (classrooms local))"
    and dr: "distinct (map id' (classrooms remote))"
  shows "id' ` set (classrooms (mergeData parse t local (Some remote)))
           = id' ` set (classrooms local) \<union> id' ` set (classrooms remote)
       \<and> (\<forall>c \<in> set (classrooms local). id' c \<notin> id' ` set (classrooms remote)
            \<longrightarrow> c \<in> set (classrooms (mergeData parse t local (Some remote))))
       \<and> (\<forall>c \<in> set (classrooms remote). id' c \<notin> id' ` set (classrooms local)
            \<longrightarrow> c \<in> set (classrooms (mergeData parse t local (Some remote))))
       \<and> (\<forall>lc \<in> set (classrooms local). \<forall>rc \<in> set (classrooms remote).
            id' lc = id' rc \<and> \<not> newer parse rc lc
            \<longrightarrow> filter (\<lambda>m. id' m = id' lc) (classrooms (mergeData parse t local (Some remote)))
                  = [lc])
       \<and> (\<forall>lc \<in> set (classrooms local). \<forall>rc \<in> set (classrooms remote).
            id' lc = id' rc \<and> newer parse rc lc
            \<longrightarrow> filter (\<lambda>m. id' m = id' lc) (classrooms (mergeData parse t local (Some remote)))
                  = [rc\<lparr>students := mergeArrayById parse (students lc) (students rc),
                         lessons := mergeArrayById parse (lessons lc) (lessons rc)\<rparr>]
              \<and> (distinct (map id' (students lc)) \<and> distinct (map id' (students rc))
                  \<longrightarrow> (\<forall>s \<in> set (students lc). id' s \<notin> id' ` set (students rc)
                         \<longrightarrow> s \<in> set (mergeArrayById parse (students lc) (students rc)))
                    \<and> (\<forall>s \<in> set (students rc). id' s \<notin> id' ` set (students lc)
                         \<longrightarrow> s \<in> set (mergeArrayById parse (students lc) (students rc))))
              \<and> (distinct (map id' (lessons lc)) \<and> distinct (map id' (lessons rc))
                  \<longrightarrow> (\<forall>l \<in> set (lessons lc). id' l \<notin> id' ` set (lessons rc)
                         \<longrightarrow> l \<in> set (mergeArrayById parse (lessons lc) (lessons rc)))
                    \<and> (\<forall>l \<in> set (lessons rc). id' l \<notin> id' ` set (lessons lc)
                         \<longrightarrow> l \<in> set (mergeArrayById parse (lessons lc) (lessons rc)))))"
proof -
  let ?M = "classrooms (mergeData parse t local (Some remote))"
  have "set (map id' ?M) = id' ` set (classrooms local) \<union> id' ` set (classrooms remote)"
    by (simp only: mergeData_ids new_Set_set set_append set_map entries_keys)
  then have 1: "id' ` set ?M = id' ` set (classrooms local) \<union> id' ` set (classrooms remote)"
    by simp
  have 2: "\<forall>c \<in> set (classrooms local). id' c \<notin> id' ` set (classrooms remote) \<longrightarrow> c \<in> set ?M"
    using mergeData_local_only [OF dl] by blast
  have 3: "\<forall>c \<in> set (classrooms remote). id' c \<notin> id' ` set (classrooms local) \<longrightarrow> c \<in> set ?M"
    using mergeData_remote_only [OF dr] by blast
  have 4: "\<forall>lc \<in> set (classrooms local). \<forall>rc \<in> set (classrooms remote).
            id' lc = id' rc \<and> \<not> newer parse rc lc
            \<longrightarrow> filter (\<lambda>m. id' m = id' lc) ?M = [lc]"
    using mergeData_both_unique [OF dl dr, of _ _ parse t] by simp
  have 5: "\<forall>lc \<in> set (classrooms local). \<forall>rc \<in> set (classrooms remote).
            id' lc = id' rc \<and> newer parse rc lc
            \<longrightarrow> filter (\<lambda>m. id' m = id' lc) ?M
                  = [rc\<lparr>students := mergeArrayById parse (students lc) (students rc),
                         lessons := mergeArrayById parse (lessons lc) (lessons rc)\<rparr>]
              \<and> (distinct (map id' (students lc)) \<and> distinct (map id' (students rc))
                  \<longrightarrow> (\<forall>s \<in> set (students lc). id' s \<notin> id' ` set (students rc)
                         \<longrightarrow> s \<in> set (mergeArrayById parse (students lc) (students rc)))
                    \<and> (\<forall>s \<in> set (students rc). id' s \<notin> id' ` set (students lc)
                         \<longrightarrow> s \<in> set (mergeArrayById parse (students lc) (students rc))))
              \<and> (distinct (map id' (lessons lc)) \<and> distinct (map id' (lessons rc))
                  \<longrightarrow> (\<forall>l \<in> set (lessons lc). id' l \<notin> id' ` set (lessons rc)
                         \<longrightarrow> l \<in> set (mergeArrayById parse (lessons lc) (lessons rc)))
                    \<and> (\<forall>l \<in> set (lessons rc). id' l \<notin> id' ` set (lessons lc)
                         \<longrightarrow> l \<in> set (mergeArrayById parse (lessons lc) (lessons rc))))"
  proof (intro ballI impI conjI)
    fix lc rc
    assume "lc \<in> set (classrooms local)" "rc \<in> set (classrooms remote)"
      and "id' lc = id' rc \<and> newer parse rc lc"
    then show "filter (\<lambda>m. id' m = id' lc) ?M
                  = [rc\<lparr>students := mergeArrayById parse (students lc) (students rc),
                         lessons := mergeArrayById parse (lessons lc) (lessons rc)\<rparr>]"
      using mergeData_both_unique [OF dl dr, of lc rc parse t] by simp
  next
    fix lc :: classroom and rc :: classroom and s
    assume "distinct (map id' (students lc)) \<and> distinct (map id' (students rc))"
      and "s \<in> set (students lc)" "id' s \<notin> id' ` set (students rc)"
    then show "s \<in> set (mergeArrayById parse (students lc) (students rc))"
      by (intro mergeArrayById_local_only) simp_all
  next
    fix lc :: classroom and rc :: classroom and s
    assume "distinct (map id' (students lc)) \<and> distinct (map id' (students rc))"
      and "s \<in> set (students rc)" "id' s \<notin> id' ` set (students lc)"
    then show "s \<in> set (mergeArrayById parse (students lc) (students rc))"
      by (intro mergeArrayById_remote_only) simp_all
  next
    fix lc :: classroom and rc :: classroom and l
    assume "distinct (map id' (lessons lc)) \<and> distinct (map id' (lessons rc))"
      and "l \<in> set (lessons lc)" "id' l \<notin> id' ` set (lessons rc)"
    then show "l \<in> set (mergeArrayById parse (lessons lc) (lessons rc))"
      by (intro mergeArrayById_local_only) simp_all
  next
    fix lc :: classroom and rc :: classroom and l
    assume "distinct (map id' (lessons lc)) \<and> distinct (map id' (lessons rc))"
      and "l \<in> set (lessons rc)" "id' l \<notin> id' ` set (lessons lc)"
    then show "l \<in> set (mergeArrayById parse (lessons lc) (lessons rc))"
      by (intro mergeArrayById_remote_only) simp_all
  qed
  from 1 2 3 4 5 show ?thesis by (intro conjI)
qed

theorem merge_keeps_entities_witness:
  "room ''class_3'' ''Latin'' ''2024-01-01T00:00:00Z'' [] []
     \<in> set (classrooms (mergeData Date_parse_sample ''2024-01-03T00:00:00Z'' local_store (Some remote_store)))
   \<and> room ''class_4'' ''Greek'' ''2024-01-01T00:00:00Z'' [] []
     \<in> set (classrooms (mergeData Date_parse_sample ''2024-01-03T00:00:00Z'' local_store (Some remote_store)))
   \<and> filter (\<lambda>m. id' m = ''class_2'')
        (classrooms (mergeData Date_parse_sample ''2024-01-03T00:00:00Z'' local_store (Some remote_store)))
       = [room ''class_2'' ''Physics'' ''2024-01-02T00:00:00Z'' [ada] []]
   \<and> filter (\<lambda>m. id' m = ''class_1'')
        (classrooms (mergeData Date_parse_sample ''2024-01-03T00:00:00Z'' local_store (Some remote_store)))
       = [room ''class_1'' ''Mathematics'' ''2024-01-02T00:00:00Z''
            (mergeArrayById Date_parse_sample [ada] [ada_edited, bob])
            (mergeArrayById Date_parse_sample [] [quiz])]
   \<and> bob \<in> set (mergeArrayById Date_parse_sample [ada] [ada_edited, bob])
   \<and> quiz \<in> set (mergeArrayById Date_parse_sample [] [quiz])"
proof -
  have dl: "distinct (map id' (classrooms local_store))" by (simp add: sample_defs)
  have dr: "distinct (map id' (classrooms remote_store))" by (simp add: sample_defs)
  show ?thesis
    using merge_keeps_entities [OF dl dr, of Date_parse_sample "''2024-01-03T00:00:00Z''"]
    by (simp add: sample_defs newer_def getTime_def js_gt_def)
qed

text \<open>
  C1 as the spec states it fails: Bob is a student of \<^verbatim>\<open>class_2\<close> on the remote side
  only, the local copy of \<^verbatim>\<open>class_2\<close> is the newer one, and the merged
  \<^verbatim>\<open>class_2\<close> is the local copy, without Bob.
\<close>

theorem merge_drops_remote_only_child:
  "bob \<in> set (students (room ''class_2'' ''Physics I'' ''2024-01-01T00:00:00Z'' [ada, bob] []))
   \<and> room ''class_2'' ''Physics I'' ''2024-01-01T00:00:00Z'' [ada, bob] [] \<in> set (classrooms remote_store)
   \<and> classrooms (mergeData Date_parse_sample ''2024-01-03T00:00:00Z'' local_store (Some remote_store))
       = [room ''class_1'' ''Mathematics'' ''2024-01-02T00:00:00Z'' [ada_edited, bob] [quiz],
          room ''class_2'' ''Physics'' ''2024-01-02T00:00:00Z'' [ada] [],
          room ''class_3'' ''Latin'' ''2024-01-01T00:00:00Z'' [] [],
          room ''class_4'' ''Greek'' ''2024-01-01T00:00:00Z'' [] []]
   \<and> bob \<notin> set (students (room ''class_2'' ''Physics'' ''2024-01-02T00:00:00Z'' [ada] []))"
  by (simp add: sample_defs merge_defs)

text \<open>
  C2, as the code has it. For a store \<open>X\<close> whose classroom ids are unique,
  \<^verbatim>\<open>mergeData(X, X)\<close> is \<open>X\<close> on every field but two: \<^verbatim>\<open>lastSync\<close> is the
  reading of the clock, and \<^verbatim>\<open>nextId\<close> is \<^verbatim>\<open>X.nextId || 1\<close>.
\<close>

theorem merge_self:
  assumes d: "distinct (map id' (classrooms X))"
  shows "mergeData parse t X (Some X) = X\<lparr>nextId := Some (or_one (nextId X)), lastSync := Some t\<rparr>"
proof -
  have c: "classrooms (mergeData parse t X (Some X)) = classrooms X"
    by (rule mergeData_self_classrooms [OF d])
  have rest: "mergeData parse t X (Some X)
      = X\<lparr>classrooms := classrooms (mergeData parse t X (Some X)),
           nextId := Some (or_one (nextId X)), lastSync := Some t\<rparr>"
    by (cases X) (simp add: mergeData_def Let_def split: option.splits)
  show ?thesis by (subst rest) (simp add: c)
qed

theorem merge_self_witness:
  "distinct (map id' (classrooms local_store))
   \<and> mergeData Date_parse_sample ''2024-01-03T00:00:00Z'' local_store (Some local_store)
       = local_store\<lparr>nextId := Some 1, lastSync := Some ''2024-01-03T00:00:00Z''\<rparr>"
proof -
  have d: "distinct (map id' (classrooms local_store))" by (simp add: sample_defs)
  have n: "or_one (nextId local_store) = 1" by (simp add: sample_defs or_one_def)
  show ?thesis using d merge_self [OF d, of Date_parse_sample "''2024-01-03T00:00:00Z''"] n by simp
qed

text \<open>C2 as the spec states it fails on \<^verbatim>\<open>lastSync\<close>.\<close>

theorem merge_self_changes_lastSync:
  "mergeData Date_parse_sample ''2024-01-03T00:00:00Z'' local_store (Some local_store) \<noteq> local_store"
proof
  assume "mergeData Date_parse_sample ''2024-01-03T00:00:00Z'' local_store (Some local_store) = local_store"
  then have "lastSync (mergeData Date_parse_sample ''2024-01-03T00:00:00Z'' local_store (Some local_store))
    = lastSync local_store" by simp
  then show False by (simp add: mergeData_def Let_def sample_defs)
qed

text \<open>
  C3, as the code has it. \<^verbatim>\<open>mergeData\<close> is a function of its two inputs and of one
  reading of the clock: with no remote it returns the local store as it is, whatever the
  time, and two runs on the same inputs at different times agree on every field but
  \<^verbatim>\<open>lastSync\<close>, which is the reading of the clock.
\<close>

theorem merge_clock_only_lastSync:
  "mergeData parse t local None = local
   \<and> mergeData parse t1 local None = mergeData parse t2 local None
   \<and> (mergeData parse t1 local (Some remote))\<lparr>lastSync := x\<rparr>
       = (mergeData parse t2 local (Some remote))\<lparr>lastSync := x\<rparr>
   \<and> lastSync (mergeData parse t1 local (Some remote)) = Some t1"
  by (simp add: mergeData_def Let_def)

text \<open>C3 as the spec states it fails: two runs one second apart differ.\<close>

theorem merge_reads_clock:
  "mergeData Date_parse_sample ''2024-01-03T00:00:00Z'' local_store (Some remote_store)
   \<noteq> mergeData Date_parse_sample ''2024-01-03T00:00:01Z'' local_store (Some remote_store)"
proof
  assume "mergeData Date_parse_sample ''2024-01-03T00:00:00Z'' local_store (Some remote_store)
   = mergeData Date_parse_sample ''2024-01-03T00:00:01Z'' local_store (Some remote_store)"
  then have "lastSync (mergeData Date_parse_sample ''2024-01-03T00:00:00Z'' local_store (Some remote_store))
   = lastSync (mergeData Date_parse_sample ''2024-01-03T00:00:01Z'' local_store (Some remote_store))"
    by simp
  then show False by (simp add: mergeData_def Let_def)
qed

text \<open>
  C4, as the code has it. For stores whose classroom ids are unique on each side and two
  classrooms of the same id, one local and one remote, the merge has exactly one classroom
  of that id: the remote copy (with the students and lessons of both copies merged by
  \<^verbatim>\<open>mergeArrayById\<close>) when its \<^verbatim>\<open>updatedAt\<close> parses strictly later, the local
  copy otherwise, so also on equal timestamps and when the local copy is strictly later.
  The merged classroom has the top-level fields of the remote copy when that one is
  strictly later. For a student (a lesson) that both copies of the classroom have under
  one id, ids being unique within each copy, the merged classroom has exactly one student
  (lesson) of that id: the remote one when both the remote classroom and the remote
  student (lesson) are strictly later than their local counterparts, the local one in
  every other case.
\<close>

theorem tie_break:
  assumes dl: "distinct (map id' (classrooms local))"
    and dr: "distinct (map id' (classrooms remote))"
    and lc: "lc \<in> set (classrooms local)" and rc: "rc \<in> set (classrooms remote)"
    and same: "id' lc = id' rc"
  shows "filter (\<lambda>m. id' m = id' lc) (classrooms (mergeData parse t local (Some remote)))
           = [if newer parse rc lc
              then rc\<lparr>students := mergeArrayById parse (students lc) (students rc),
                      lessons := mergeArrayById parse (lessons lc) (lessons rc)\<rparr>
              else lc]
       \<and> (getTime parse (updatedAt rc) = getTime parse (updatedAt lc)
            \<longrightarrow> filter (\<lambda>m. id' m = id' lc) (classrooms (mergeData parse t local (Some remote)))
                  = [lc])
       \<and> (newer parse lc rc
            \<longrightarrow> filter (\<lambda>m. id' m = id' lc) (classrooms (mergeData parse t local (Some remote)))
                  = [lc])
       \<and> (newer parse rc lc \<longrightarrow>
            (\<forall>m \<in> set (classrooms (mergeData parse t local (Some remote))). id' m = id' lc \<longrightarrow>
               id' m = id' rc \<and> updatedAt m = updatedAt rc \<and> name m = name rc
             \<and> subject m = subject rc \<and> teacher m = teacher rc \<and> columns m = columns rc
             \<and> nextSid m = nextSid rc \<and> nextLid m = nextLid rc \<and> nextCid m = nextCid rc
             \<and> students m = mergeArrayById parse (students lc) (students rc)
             \<and> lessons m = mergeArrayById parse (lessons lc) (lessons rc)))
       \<and> (\<forall>m \<in> set (classrooms (mergeData parse t local (Some remote))). id' m = id' lc \<longrightarrow>
            (distinct (map id' (students lc)) \<and> distinct (map id' (students rc)) \<longrightarrow>
               (\<forall>li \<in> set (students lc). \<forall>ri \<in> set (students rc). id' li = id' ri \<longrightarrow>
                  filter (\<lambda>x. id' x = id' li) (students m)
                    = [if newer parse rc lc \<and> newer parse ri li then ri else li]))
          \<and> (distinct (map id' (lessons lc)) \<and> distinct (map id' (lessons rc)) \<longrightarrow>
               (\<forall>li \<in> set (lessons lc). \<forall>ri \<in> set (lessons rc). id' li = id' ri \<longrightarrow>
                  filter (\<lambda>x. id' x = id' li) (lessons m)
                    = [if newer parse rc lc \<and> newer parse ri li then ri else li])))"
proof -
  let ?M = "classrooms (mergeData parse t local (Some remote))"
  let ?w = "if newer parse rc lc
              then rc\<lparr>students := mergeArrayById parse (students lc) (students rc),
                      lessons := mergeArrayById parse (lessons lc) (lessons rc)\<rparr>
              else lc"
  have 1: "filter (\<lambda>m. id' m = id' lc) ?M = [?w]"
    by (rule mergeData_both_unique [OF dl dr lc rc same])
  have only: "m = ?w" if "m \<in> set ?M" "id' m = id' lc" for m
  proof -
    from that have "m \<in> set (filter (\<lambda>m. id' m = id' lc) ?M)" by simp
    then show ?thesis by (simp only: 1) simp
  qed
  have 2: "getTime parse (updatedAt rc) = getTime parse (updatedAt lc)
             \<longrightarrow> filter (\<lambda>m. id' m = id' lc) ?M = [lc]"
    using 1 by (auto simp: newer_def js_gt_irrefl)
  have 3: "newer parse lc rc \<longrightarrow> filter (\<lambda>m. id' m = id' lc) ?M = [lc]"
    using 1 js_gt_asym [of "getTime parse (updatedAt lc)" "getTime parse (updatedAt rc)"]
    by (auto simp: newer_def)
  have 4: "newer parse rc lc \<longrightarrow>
            (\<forall>m \<in> set ?M. id' m = id' lc \<longrightarrow>
               id' m = id' rc \<and> updatedAt m = updatedAt rc \<and> name m = name rc
             \<and> subject m = subject rc \<and> teacher m = teacher rc \<and> columns m = columns rc
             \<and> nextSid m = nextSid rc \<and> nextLid m = nextLid rc \<and> nextCid m = nextCid rc
             \<and> students m = mergeArrayById parse (students lc) (students rc)
             \<and> lessons m = mergeArrayById parse (lessons lc) (lessons rc))"
  proof (intro impI ballI)
    fix m
    assume n: "newer parse rc lc" and m: "m \<in> set ?M" "id' m = id' lc"
    from only [OF m] n
    have "m = rc\<lparr>students := mergeArrayById parse (students lc) (students rc),
                 lessons := mergeArrayById parse (lessons lc) (lessons rc)\<rparr>" by simp
    then show "id' m = id' rc \<and> updatedAt m = updatedAt rc \<and> name m = name rc
             \<and> subject m = subject rc \<and> teacher m = teacher rc \<and> columns m = columns rc
             \<and> nextSid m = nextSid rc \<and> nextLid m = nextLid rc \<and> nextCid m = nextCid rc
             \<and> students m = mergeArrayById parse (students lc) (students rc)
             \<and> lessons m = mergeArrayById parse (lessons lc) (lessons rc)" by simp
  qed
  have 5: "\<forall>m \<in> set ?M. id' m = id' lc \<longrightarrow>
            (distinct (map id' (students lc)) \<and> distinct (map id' (students rc)) \<longrightarrow>
               (\<forall>li \<in> set (students lc). \<forall>ri \<in> set (students rc). id' li = id' ri \<longrightarrow>
                  filter (\<lambda>x. id' x = id' li) (students m)
                    = [if newer parse rc lc \<and> newer parse ri li then ri else li]))
          \<and> (distinct (map id' (lessons lc)) \<and> distinct (map id' (lessons rc)) \<longrightarrow>
               (\<forall>li \<in> set (lessons lc). \<forall>ri \<in> set (lessons rc). id' li = id' ri \<longrightarrow>
                  filter (\<lambda>x. id' x = id' li) (lessons m)
                    = [if newer parse rc lc \<and> newer parse ri li then ri else li]))"
  proof (intro ballI impI conjI)
    fix m li ri
    assume m: "m \<in> set ?M" "id' m = id' lc"
      and d: "distinct (map id' (students lc)) \<and> distinct (map id' (students rc))"
      and c: "li \<in> set (students lc)" "ri \<in> set (students rc)" "id' li = id' ri"
    have s: "students m = (if newer parse rc lc
        then mergeArrayById parse (students lc) (students rc) else students lc)"
      using only [OF m] by simp
    from d have d1: "distinct (map id' (students lc))" and d2: "distinct (map id' (students rc))"
      by simp_all
    show "filter (\<lambda>x. id' x = id' li) (students m)
            = [if newer parse rc lc \<and> newer parse ri li then ri else li]"
      unfolding s by (rule child_tie_break [OF d1 d2 c])
  next
    fix m li ri
    assume m: "m \<in> set ?M" "id' m = id' lc"
      and d: "distinct (map id' (lessons lc)) \<and> distinct (map id' (lessons rc))"
      and c: "li \<in> set (lessons lc)" "ri \<in> set (lessons rc)" "id' li = id' ri"
    have s: "lessons m = (if newer parse rc lc
        then mergeArrayById parse (lessons lc) (lessons rc) else lessons lc)"
      using only [OF m] by simp
    from d have d1: "distinct (map id' (lessons lc))" and d2: "distinct (map id' (lessons rc))"
      by simp_all
    show "filter (\<lambda>x. id' x = id' li) (lessons m)
            = [if newer parse rc lc \<and> newer parse ri li then ri else li]"
      unfolding s by (rule child_tie_break [OF d1 d2 c])
  qed
  from 1 2 3 4 5 show ?thesis by (intro conjI)
qed

theorem tie_break_witness:
  "filter (\<lambda>m. id' m = ''class_1'')
      (classrooms (mergeData Date_parse_sample ''2024-01-03T00:00:00Z'' local_store (Some remote_store)))
     = [room ''class_1'' ''Mathematics'' ''2024-01-02T00:00:00Z''
          (mergeArrayById Date_parse_sample [ada] [ada_edited, bob])
          (mergeArrayById Date_parse_sample [] [quiz])]
   \<and> filter (\<lambda>x. id' x = 1) (mergeArrayById Date_parse_sample [ada] [ada_edited, bob]) = [ada_edited]"
proof -
  let ?lc = "room ''class_1'' ''Maths'' ''2024-01-01T00:00:00Z'' [ada] []"
  let ?rc = "room ''class_1'' ''Mathematics'' ''2024-01-02T00:00:00Z'' [ada_edited, bob] [quiz]"
  let ?M = "classrooms (mergeData Date_parse_sample ''2024-01-03T00:00:00Z'' local_store (Some remote_store))"
  let ?m = "room ''class_1'' ''Mathematics'' ''2024-01-02T00:00:00Z''
          (mergeArrayById Date_parse_sample [ada] [ada_edited, bob])
          (mergeArrayById Date_parse_sample [] [quiz])"
  have dl: "distinct (map id' (classrooms local_store))" by (simp add: sample_defs)
  have dr: "distinct (map id' (classrooms remote_store))" by (simp add: sample_defs)
  have lc: "?lc \<in> set (classrooms local_store)" by (simp add: sample_defs)
  have rc: "?rc \<in> set (classrooms remote_store)" by (simp add: sample_defs)
  have same: "id' ?lc = id' ?rc" by (simp add: sample_defs)
  have n: "newer Date_parse_sample ?rc ?lc"
    by (simp add: sample_defs newer_def getTime_def js_gt_def)
  have n': "newer Date_parse_sample ada_edited ada"
    by (simp add: sample_defs newer_def getTime_def js_gt_def)
  note T = tie_break [OF dl dr lc rc same, of Date_parse_sample "''2024-01-03T00:00:00Z''"]
  from T n have 1: "filter (\<lambda>m. id' m = ''class_1'') ?M = [?m]"
    by (simp add: room_def)
  then have "?m \<in> set (filter (\<lambda>m. id' m = ''class_1'') ?M)" by simp
  then have m: "?m \<in> set ?M" by simp
  have d: "distinct (map id' (students ?lc)) \<and> distinct (map id' (students ?rc))"
    by (simp add: sample_defs)
  from T have "\<forall>m \<in> set ?M. id' m = id' ?lc \<longrightarrow>
            (distinct (map id' (students ?lc)) \<and> distinct (map id' (students ?rc)) \<longrightarrow>
               (\<forall>li \<in> set (students ?lc). \<forall>ri \<in> set (students ?rc). id' li = id' ri \<longrightarrow>
                  filter (\<lambda>x. id' x = id' li) (students m)
                    = [if newer Date_parse_sample ?rc ?lc \<and> newer Date_parse_sample ri li then ri else li]))"
    by blast
  then have A: "\<forall>m \<in> set ?M. id' m = id' ?lc \<longrightarrow>
            (distinct (map id' (students ?lc)) \<and> distinct (map id' (students ?rc)) \<longrightarrow>
               (\<forall>li \<in> set (students ?lc). \<forall>ri \<in> set (students ?rc). id' li = id' ri \<longrightarrow>
                  filter (\<lambda>x. id' x = id' li) (students m)
                    = [if newer Date_parse_sample ?rc ?lc \<and> newer Date_parse_sample ri li then ri else li]))" .
  have idm: "id' ?m = id' ?lc" by (simp add: room_def)
  have a1: "ada \<in> set (students ?lc)" by (simp add: room_def)
  have a2: "ada_edited \<in> set (students ?rc)" by (simp add: room_def)
  have a3: "id' ada = id' ada_edited" by (simp add: ada_def ada_edited_def pupil_def)
  from A m idm d a1 a2 a3
  have B: "filter (\<lambda>x. id' x = id' ada) (students ?m)
      = [if newer Date_parse_sample ?rc ?lc \<and> newer Date_parse_sample ada_edited ada
         then ada_edited else ada]"
    by blast
  have sm: "students ?m = mergeArrayById Date_parse_sample [ada] [ada_edited, bob]"
    by (simp add: room_def)
  have ia: "id' ada = 1" by (simp add: ada_def pupil_def)
  from B n n' have 2: "filter (\<lambda>x. id' x = 1) (mergeArrayById Date_parse_sample [ada] [ada_edited, bob]) = [ada_edited]"
    by (simp only: sm ia simp_thms if_True)
  from 1 2 show ?thesis by simp
qed

text \<open>
  C4 as the spec states it fails for students: the remote copy of Ada is strictly later
  than the local one, the local copy of their classroom is strictly later than the remote
  one, and the merged classroom keeps the local, older copy of Ada.
\<close>

theorem merge_discards_newer_remote_child:
  "newer Date_parse_sample ada_edited ada
   \<and> id' ada_edited = id' ada
   \<and> ada_edited \<in> set (students (hd (classrooms tie_remote)))
   \<and> classrooms (mergeData Date_parse_sample ''2024-01-03T00:00:00Z'' tie_local (Some tie_remote))
       = [room ''class_1'' ''Maths'' ''2024-01-02T00:00:00Z'' [ada] []]"
  by (simp add: merge_defs sample_defs tie_local_def tie_remote_def Let_def)

section \<open>The pending queue\<close>

lemma queuePendingChanges_queue:
  "pendingChanges (DB (queuePendingChanges t badge a))
     = Some (let pushed = or_empty (pendingChanges (DB a)) @ [marker_of (t, badge)]
             in if 50 < length pushed then tl pushed else pushed)"
  by (simp add: queuePendingChanges_def saveToLocalStorage_def Let_def or_empty_def split: option.splits)

lemma push_shift_drop:
  assumes "length q \<le> 50"
  shows "(let pushed = q @ [m] in if 50 < length pushed then tl pushed else pushed)
           = drop (length (q @ [m]) - 50) (q @ [m])"
proof (cases "length q = 50")
  case True
  then have "q \<noteq> []" by auto
  then show ?thesis using True by (simp add: Let_def drop_Suc tl_append2 flip: tl_drop)
next
  case False
  then show ?thesis using assms by (simp add: Let_def)
qed

lemma drop_drop_window:
  "length q \<le> n \<Longrightarrow> drop (length (drop (length q - n) q @ [m]) - n) (drop (length q - n) q @ [m])
     = drop (length (q @ [m]) - n) (q @ [m])"
  by simp

lemma enqueue_all_queue:
  assumes "length (or_empty (pendingChanges (DB a))) \<le> 50"
  shows "or_empty (pendingChanges (DB (enqueue_all ms a)))
           = drop (length (or_empty (pendingChanges (DB a)) @ map marker_of ms) - 50)
                  (or_empty (pendingChanges (DB a)) @ map marker_of ms)"
  using assms
proof (induction ms arbitrary: a)
  case Nil
  then show ?case by (simp add: enqueue_all_def or_empty_def split: option.splits)
next
  case (Cons m ms)
  obtain t badge where m: "m = (t, badge)" by (cases m)
  let ?q = "or_empty (pendingChanges (DB a))"
  let ?a1 = "queuePendingChanges t badge a"
  have q1: "or_empty (pendingChanges (DB ?a1)) = drop (length (?q @ [marker_of m]) - 50) (?q @ [marker_of m])"
    using push_shift_drop [OF Cons.prems, of "marker_of m"]
    by (simp add: queuePendingChanges_queue m or_empty_def)
  have len: "length (or_empty (pendingChanges (DB ?a1))) \<le> 50"
    unfolding q1 using Cons.prems by simp
  have step: "enqueue_all (m # ms) a = enqueue_all ms ?a1"
    by (simp add: enqueue_all_def m)
  show ?case
  proof (cases "length ?q = 50")
    case True
    then have "or_empty (pendingChanges (DB ?a1)) = tl ?q @ [marker_of m]"
      unfolding q1 by (cases ?q) auto
    then show ?thesis
      unfolding step Cons.IH [OF len] using True
      by (cases ?q) (auto simp: drop_Cons' Suc_diff_le)
  next
    case False
    then have "or_empty (pendingChanges (DB ?a1)) = ?q @ [marker_of m]"
      unfolding q1 using Cons.prems by simp
    then show ?thesis
      unfolding step Cons.IH [OF len] by simp
  qed
qed

lemma sixty_markers_eval:
  "length (drop 10 (map marker_of sixty_markers)) = 50
   \<and> hd (drop 10 (map marker_of sixty_markers)) = \<lparr>timestamp = ''11'', ctx = ''class''\<rparr>
   \<and> last (drop 10 (map marker_of sixty_markers)) = \<lparr>timestamp = ''60'', ctx = ''class''\<rparr>"
  by code_simp

lemma initial_queue: "or_empty (pendingChanges (DB initial_app)) = []"
  by (simp add: initial_app_def initial_DB_def or_empty_def)

lemma sixty_length: "length sixty_markers = 60"
  by (simp add: sixty_markers_def)

text \<open>
  C8, as the code has it. A queue of at most 50 entries stays at most 50 entries long:
  each call of \<^verbatim>\<open>queuePendingChanges\<close> appends one timestamped marker at the end and,
  once the length passes 50, removes the entry at the front, the oldest. After a run of
  calls the queue is the last 50 entries of the old queue followed by the new markers, in
  the order of the calls: sixty calls on an empty queue leave the markers of the last
  fifty calls, oldest first and newest last.
\<close>

theorem queue_bound:
  assumes "length (or_empty (pendingChanges (DB a))) \<le> 50"
  shows "or_empty (pendingChanges (DB (queuePendingChanges t badge a)))
           = (if length (or_empty (pendingChanges (DB a))) < 50
              then or_empty (pendingChanges (DB a)) @ [marker_of (t, badge)]
              else tl (or_empty (pendingChanges (DB a))) @ [marker_of (t, badge)])
       \<and> length (or_empty (pendingChanges (DB (enqueue_all ms a)))) \<le> 50
       \<and> or_empty (pendingChanges (DB (enqueue_all ms a)))
           = drop (length (or_empty (pendingChanges (DB a)) @ map marker_of ms) - 50)
                  (or_empty (pendingChanges (DB a)) @ map marker_of ms)
       \<and> (or_empty (pendingChanges (DB a)) = [] \<and> length ms = 60
            \<longrightarrow> or_empty (pendingChanges (DB (enqueue_all ms a))) = drop 10 (map marker_of ms))"
proof -
  let ?q = "or_empty (pendingChanges (DB a))"
  have 1: "or_empty (pendingChanges (DB (queuePendingChanges t badge a)))
           = (if length ?q < 50 then ?q @ [marker_of (t, badge)] else tl ?q @ [marker_of (t, badge)])"
    using assms by (cases ?q) (auto simp: queuePendingChanges_queue Let_def or_empty_def)
  have 3: "or_empty (pendingChanges (DB (enqueue_all ms a)))
           = drop (length (?q @ map marker_of ms) - 50) (?q @ map marker_of ms)"
    by (rule enqueue_all_queue [OF assms])
  have 2: "length (or_empty (pendingChanges (DB (enqueue_all ms a)))) \<le> 50"
    unfolding 3 by simp
  have 4: "?q = [] \<and> length ms = 60
            \<longrightarrow> or_empty (pendingChanges (DB (enqueue_all ms a))) = drop 10 (map marker_of ms)"
    unfolding 3 by simp
  from 1 2 3 4 show ?thesis by (intro conjI)
qed

theorem queue_bound_witness:
  "length (or_empty (pendingChanges (DB initial_app))) \<le> 50
   \<and> length (or_empty (pendingChanges (DB (enqueue_all sixty_markers initial_app)))) \<le> 50
   \<and> or_empty (pendingChanges (DB (enqueue_all sixty_markers initial_app)))
       = drop 10 (map marker_of sixty_markers)"
proof -
  have h: "length (or_empty (pendingChanges (DB initial_app))) \<le> 50"
    by (simp add: initial_queue)
  show ?thesis
    using h queue_bound [OF h, of "''t''" None sixty_markers]
    by (simp add: initial_queue sixty_length)
qed

text \<open>
  C8 as the spec states it fails on the order: after sixty calls the first entry of the
  queue is the marker of call 11, the oldest survivor, and the last entry is the marker
  of call 60; the queue is not the survivors newest first.
\<close>

theorem queue_is_oldest_first:
  "length (or_empty (pendingChanges (DB (enqueue_all sixty_markers initial_app)))) = 50
   \<and> hd (or_empty (pendingChanges (DB (enqueue_all sixty_markers initial_app))))
       = \<lparr>timestamp = ''11'', ctx = ''class''\<rparr>
   \<and> last (or_empty (pendingChanges (DB (enqueue_all sixty_markers initial_app))))
       = \<lparr>timestamp = ''60'', ctx = ''class''\<rparr>
   \<and> or_empty (pendingChanges (DB (enqueue_all sixty_markers initial_app)))
       \<noteq> rev (drop 10 (map marker_of sixty_markers))"
proof -
  have h: "length (or_empty (pendingChanges (DB initial_app))) \<le> 50"
    by (simp add: initial_queue)
  have "or_empty (pendingChanges (DB (enqueue_all sixty_markers initial_app)))
       = drop 10 (map marker_of sixty_markers)"
    using enqueue_all_queue [OF h, of sixty_markers] by (simp add: initial_queue sixty_length)
  moreover have "drop 10 (map marker_of sixty_markers) \<noteq> rev (drop 10 (map marker_of sixty_markers))"
  proof
    assume "drop 10 (map marker_of sixty_markers) = rev (drop 10 (map marker_of sixty_markers))"
    then have "hd (drop 10 (map marker_of sixty_markers)) = hd (rev (drop 10 (map marker_of sixty_markers)))"
      by simp
    moreover have "drop 10 (map marker_of sixty_markers) \<noteq> []"
      using sixty_markers_eval by auto
    ultimately have "hd (drop 10 (map marker_of sixty_markers)) = last (drop 10 (map marker_of sixty_markers))"
      by (simp add: hd_rev)
    then show False using sixty_markers_eval by simp
  qed
  ultimately show ?thesis using sixty_markers_eval by simp
qed

section \<open>The push\<close>

lemma upsert_loop_effects:
  "upsert_loop e uid cs errs effs = (r, effs') \<Longrightarrow>
     \<exists>new. effs' = effs @ new
       \<and> (\<forall>x \<in> set new. (\<exists>c \<in> set cs. x = RemoteUpsert (classroom_row_of uid (now e) c)
                                        (upsert_result e (classroom_row_of uid (now e) c)))
                          \<or> x = Notify TablesNotSetUp)"
proof (induction cs arbitrary: errs effs)
  case Nil
  then show ?case by simp
next
  case (Cons c cs)
  let ?row = "classroom_row_of uid (now e) c"
  let ?effs = "effs @ [RemoteUpsert ?row (upsert_result e ?row)]"
  show ?case
  proof (cases "upsert_result e ?row")
    case (Rejected x)
    with Cons.prems have "upsert_loop e uid cs (errs @ [x]) ?effs = (r, effs')"
      by (simp add: Let_def)
    from Cons.IH [OF this] show ?thesis by auto
  next
    case (Resolved d err)
    show ?thesis
    proof (cases err)
      case None
      with Resolved Cons.prems have "upsert_loop e uid cs errs ?effs = (r, effs')"
        by (simp add: Let_def)
      from Cons.IH [OF this] show ?thesis by auto
    next
      case (Some x)
      show ?thesis
      proof (cases "message_includes (Some x) ''does not exist''")
        case True
        with Some Resolved Cons.prems have "effs' = ?effs @ [Notify TablesNotSetUp]"
          by (simp add: Let_def)
        then show ?thesis by auto
      next
        case False
        with Some Resolved Cons.prems have "upsert_loop e uid cs (errs @ [x]) ?effs = (r, effs')"
          by (simp add: Let_def)
        from Cons.IH [OF this] show ?thesis by auto
      qed
    qed
  qed
qed

lemma upsert_loop_success:
  "(\<And>c. c \<in> set cs \<Longrightarrow> \<exists>d. upsert_result e (classroom_row_of uid (now e) c) = Resolved d None) \<Longrightarrow>
   upsert_loop e uid cs errs effs
     = (Some errs, effs @ map (\<lambda>c. RemoteUpsert (classroom_row_of uid (now e) c)
                                     (upsert_result e (classroom_row_of uid (now e) c))) cs)"
proof (induction cs arbitrary: errs effs)
  case Nil
  show ?case by simp
next
  case (Cons c cs)
  obtain d where d: "upsert_result e (classroom_row_of uid (now e) c) = Resolved d None"
    using Cons.prems [of c] by auto
  have "\<And>c'. c' \<in> set cs \<Longrightarrow> \<exists>d. upsert_result e (classroom_row_of uid (now e) c') = Resolved d None"
    using Cons.prems by simp
  from Cons.IH [OF this] show ?case by (simp add: Let_def d)
qed

lemma push_effects_only_upserts:
  "x \<in> set (push_effects e uid cs) \<Longrightarrow>
     (\<exists>c \<in> set cs. x = RemoteUpsert (classroom_row_of uid (now e) c)
                          (upsert_result e (classroom_row_of uid (now e) c)))
     \<or> (\<exists>n. x = Notify n)"
proof -
  assume x: "x \<in> set (push_effects e uid cs)"
  obtain r effs where l: "upsert_loop e uid cs [] [] = (r, effs)" by (cases "upsert_loop e uid cs [] []")
  from upsert_loop_effects [OF l] have effs: "\<forall>x \<in> set effs. (\<exists>c \<in> set cs. x = RemoteUpsert (classroom_row_of uid (now e) c)
                                        (upsert_result e (classroom_row_of uid (now e) c)))
                          \<or> x = Notify TablesNotSetUp" by simp
  from x l have "x \<in> set effs \<or> (\<exists>n. x = Notify n)"
    by (auto simp: push_effects_def split: option.splits if_splits)
  with effs show ?thesis by blast
qed

lemma push_effects_success:
  assumes "\<And>c. c \<in> set cs \<Longrightarrow> \<exists>d. upsert_result e (classroom_row_of uid (now e) c) = Resolved d None"
  shows "push_effects e uid cs = map (\<lambda>c. RemoteUpsert (classroom_row_of uid (now e) c)
                                     (upsert_result e (classroom_row_of uid (now e) c))) cs"
  using upsert_loop_success [of cs e uid "[]" "[]", OF assms] by (simp add: push_effects_def)

lemma push_effects_no_delete:
  "x \<in> set (push_effects e uid cs) \<Longrightarrow> \<not> deletes_or_inserts x"
  using push_effects_only_upserts [of x e uid cs] by auto

lemma upsert_keys:
  "map row_key (upsert r t) = (if row_key r \<in> set (map row_key t) then map row_key t else map row_key t @ [row_key r])"
  by (auto simp: upsert_def intro: map_idI)

lemma apply_effect_keys:
  "\<not> deletes_or_inserts x \<Longrightarrow>
   map row_key (apply_effect applied t x)
     = foldl (\<lambda>s k. if k \<in> set s then s else s @ [k]) (map row_key t) (map row_key (upserted applied x))"
  by (induction applied t x rule: apply_effect.induct) (simp_all add: upsert_keys)

lemma remote_after_keys:
  "(\<And>x. x \<in> set effs \<Longrightarrow> \<not> deletes_or_inserts x) \<Longrightarrow>
   map row_key (remote_after applied effs t)
     = foldl (\<lambda>s k. if k \<in> set s then s else s @ [k]) (map row_key t)
         (map row_key (concat (map (upserted applied) effs)))"
proof (induction effs arbitrary: t)
  case Nil
  show ?case by (simp add: remote_after_def)
next
  case (Cons x effs)
  have x: "\<not> deletes_or_inserts x" using Cons.prems by simp
  have "\<And>y. y \<in> set effs \<Longrightarrow> \<not> deletes_or_inserts y" using Cons.prems by simp
  from Cons.IH [OF this, of "apply_effect applied t x"] show ?case
    by (simp add: remote_after_def apply_effect_keys [OF x])
qed

lemma foldl_set_add_set':
  "set (foldl (\<lambda>s x. if x \<in> set s then s else s @ [x]) acc xs) = set acc \<union> set xs"
  by (induction xs arbitrary: acc) auto

lemma foldl_set_add_distinct':
  "distinct acc \<Longrightarrow> distinct (foldl (\<lambda>s x. if x \<in> set s then s else s @ [x]) acc xs)"
  by (induction xs arbitrary: acc) auto

lemma foldl_set_add_known':
  "set xs \<subseteq> set acc \<Longrightarrow> foldl (\<lambda>s x. if x \<in> set s then s else s @ [x]) acc xs = acc"
  by (induction xs arbitrary: acc) auto

lemma upsert_keeps_others:
  "x \<in> set t \<Longrightarrow> row_key x \<noteq> row_key r \<Longrightarrow> x \<in> set (upsert r t)"
  by (auto simp: upsert_def)

lemma apply_effect_keeps_others:
  "\<not> deletes_or_inserts y \<Longrightarrow> x \<in> set t \<Longrightarrow> row_key x \<notin> row_key ` set (upserted applied y)
     \<Longrightarrow> x \<in> set (apply_effect applied t y)"
  by (induction applied t y rule: apply_effect.induct) (auto simp: upsert_keeps_others)

lemma remote_after_keeps_others:
  "(\<And>y. y \<in> set effs \<Longrightarrow> \<not> deletes_or_inserts y) \<Longrightarrow> x \<in> set t
     \<Longrightarrow> (\<And>y. y \<in> set effs \<Longrightarrow> row_key x \<notin> row_key ` set (upserted applied y))
     \<Longrightarrow> x \<in> set (remote_after applied effs t)"
proof (induction effs arbitrary: t)
  case Nil
  then show ?case by (simp add: remote_after_def)
next
  case (Cons y effs)
  have "x \<in> set (apply_effect applied t y)"
    using Cons.prems by (intro apply_effect_keeps_others) auto
  then have "x \<in> set (remote_after applied effs (apply_effect applied t y))"
    using Cons.prems by (intro Cons.IH) auto
  then show ?case by (simp add: remote_after_def)
qed

lemma push_effects_upserted_user:
  "y \<in> set (push_effects e uid cs) \<Longrightarrow> r \<in> set (upserted applied y) \<Longrightarrow> cr_user_id r = uid"
  using push_effects_only_upserts [of y e uid cs]
  by (cases "(applied, y)" rule: upserted.cases) (auto simp: classroom_row_of_def split: if_splits)

lemma push_effects_success_upserted:
  assumes "\<And>c. c \<in> set cs \<Longrightarrow> \<exists>d. upsert_result e (classroom_row_of uid (now e) c) = Resolved d None"
    and ap: "applied_on_success applied"
  shows "map row_key (concat (map (upserted applied) (push_effects e uid cs))) = map (\<lambda>c. (id' c, uid)) cs"
proof -
  have key: "\<And>c. row_key (classroom_row_of uid (now e) c) = (id' c, uid)"
    by (simp add: row_key_def classroom_row_of_def)
  have "\<And>c. c \<in> set cs \<Longrightarrow>
      map row_key (upserted applied (RemoteUpsert (classroom_row_of uid (now e) c)
                                     (upsert_result e (classroom_row_of uid (now e) c)))) = [(id' c, uid)]"
  proof -
    fix c assume "c \<in> set cs"
    then obtain d where "upsert_result e (classroom_row_of uid (now e) c) = Resolved d None"
      using assms(1) by blast
    then show "map row_key (upserted applied (RemoteUpsert (classroom_row_of uid (now e) c)
                                     (upsert_result e (classroom_row_of uid (now e) c)))) = [(id' c, uid)]"
      using ap by (simp add: key applied_on_success_def)
  qed
  then have "map row_key (concat (map (\<lambda>c. upserted applied (RemoteUpsert (classroom_row_of uid (now e) c)
                                     (upsert_result e (classroom_row_of uid (now e) c)))) cs))
             = map (\<lambda>c. (id' c, uid)) cs"
    by (induction cs) auto
  then show ?thesis by (simp add: push_effects_success [OF assms(1)] comp_def)
qed

lemma push_effects_upserted_keys:
  "set (map row_key (concat (map (upserted applied) (push_effects e uid cs)))) \<subseteq> (\<lambda>c. (id' c, uid)) ` set cs"
proof
  fix k assume "k \<in> set (map row_key (concat (map (upserted applied) (push_effects e uid cs))))"
  then obtain y r where y: "y \<in> set (push_effects e uid cs)" and r: "r \<in> set (upserted applied y)"
    and k: "k = row_key r" by auto
  from push_effects_only_upserts [OF y] r obtain c where "c \<in> set cs"
    and "r = classroom_row_of uid (now e) c"
    by (cases "(applied, y)" rule: upserted.cases) (auto split: if_splits)
  then show "k \<in> (\<lambda>c. (id' c, uid)) ` set cs"
    using k by (auto simp: row_key_def classroom_row_of_def)
qed

text \<open>
  C6. \<^verbatim>\<open>saveUserDataToSupabase\<close> throws when there is no client and otherwise sends,
  for the classrooms of the store in their order, one upsert each of the row that carries
  the classroom's own id and the owner's id, and nothing but upserts and notifications:
  no delete and no insert (all of the classrooms when every upsert succeeds). On a remote
  table with unique keys, a push followed by a second push of the same classrooms leaves
  the keys unique and keeps every key that was there, keeps the rows of other users as
  they were, whichever requests the backend applied; and, when the upserts of the first
  push succeeded and were applied, the second push adds no row and removes none.
\<close>

theorem push_upserts_only:
  assumes d: "distinct (map row_key t)"
  shows "saveUserDataToSupabase e uid a
           = (if supabase e then Inr (a\<lparr>trace := trace a @ push_effects e uid (classrooms (DB a))\<rparr>)
              else Inl (Error (Some ''Supabase not initialized'')))
       \<and> (\<forall>x \<in> set (push_effects e uid cs).
             \<not> deletes_or_inserts x
           \<and> ((\<exists>c \<in> set cs. x = RemoteUpsert (classroom_row_of uid (now e) c)
                                   (upsert_result e (classroom_row_of uid (now e) c)))
              \<or> (\<exists>n. x = Notify n)))
       \<and> row_key (classroom_row_of uid (now e) c) = (id' c, uid)
       \<and> (applied_on_success applied
            \<and> (\<forall>c \<in> set cs. \<exists>d. upsert_result e (classroom_row_of uid (now e) c) = Resolved d None)
            \<longrightarrow> push_effects e uid cs
                  = map (\<lambda>c. RemoteUpsert (classroom_row_of uid (now e) c)
                                 (upsert_result e (classroom_row_of uid (now e) c))) cs
              \<and> map row_key (remote_after applied (push_effects e uid cs @ push_effects e' uid cs) t)
                  = map row_key (remote_after applied (push_effects e uid cs) t))
       \<and> distinct (map row_key (remote_after applied (push_effects e uid cs @ push_effects e' uid cs) t))
       \<and> set (map row_key t)
            \<subseteq> set (map row_key (remote_after applied (push_effects e uid cs @ push_effects e' uid cs) t))
       \<and> (x \<in> set t \<and> cr_user_id x \<noteq> uid
            \<longrightarrow> x \<in> set (remote_after applied (push_effects e uid cs @ push_effects e' uid cs) t))"
proof -
  let ?p1 = "push_effects e uid cs" and ?p2 = "push_effects e' uid cs"
  have nd: "\<And>y. y \<in> set (?p1 @ ?p2) \<Longrightarrow> \<not> deletes_or_inserts y"
    using push_effects_no_delete by auto
  have nd1: "\<And>y. y \<in> set ?p1 \<Longrightarrow> \<not> deletes_or_inserts y"
    using push_effects_no_delete by auto
  have keys: "map row_key (remote_after applied (?p1 @ ?p2) t)
     = foldl (\<lambda>s k. if k \<in> set s then s else s @ [k]) (map row_key t)
         (map row_key (concat (map (upserted applied) (?p1 @ ?p2))))"
    by (rule remote_after_keys [OF nd])
  have keys1: "map row_key (remote_after applied ?p1 t)
     = foldl (\<lambda>s k. if k \<in> set s then s else s @ [k]) (map row_key t)
         (map row_key (concat (map (upserted applied) ?p1)))"
    by (rule remote_after_keys [OF nd1])
  have 1: "saveUserDataToSupabase e uid a
           = (if supabase e then Inr (a\<lparr>trace := trace a @ push_effects e uid (classrooms (DB a))\<rparr>)
              else Inl (Error (Some ''Supabase not initialized'')))"
    by (simp add: saveUserDataToSupabase_def)
  have 2: "\<forall>x \<in> set ?p1.
             \<not> deletes_or_inserts x
           \<and> ((\<exists>c \<in> set cs. x = RemoteUpsert (classroom_row_of uid (now e) c)
                                   (upsert_result e (classroom_row_of uid (now e) c)))
              \<or> (\<exists>n. x = Notify n))"
    using push_effects_only_upserts [of _ e uid cs] push_effects_no_delete [of _ e uid cs] by blast
  have 3: "row_key (classroom_row_of uid (now e) c) = (id' c, uid)"
    by (simp add: row_key_def classroom_row_of_def)
  have 4: "applied_on_success applied
            \<and> (\<forall>c \<in> set cs. \<exists>d. upsert_result e (classroom_row_of uid (now e) c) = Resolved d None)
            \<longrightarrow> ?p1 = map (\<lambda>c. RemoteUpsert (classroom_row_of uid (now e) c)
                                 (upsert_result e (classroom_row_of uid (now e) c))) cs
              \<and> map row_key (remote_after applied (?p1 @ ?p2) t) = map row_key (remote_after applied ?p1 t)"
  proof
    assume h: "applied_on_success applied
            \<and> (\<forall>c \<in> set cs. \<exists>d. upsert_result e (classroom_row_of uid (now e) c) = Resolved d None)"
    then have ap: "applied_on_success applied" by simp
    from h have ok': "\<And>c. c \<in> set cs \<Longrightarrow> \<exists>d. upsert_result e (classroom_row_of uid (now e) c) = Resolved d None"
      by blast
    have k1: "map row_key (concat (map (upserted applied) ?p1)) = map (\<lambda>c. (id' c, uid)) cs"
      by (rule push_effects_success_upserted [OF ok' ap])
    have "set (map row_key (concat (map (upserted applied) ?p2))) \<subseteq> set (map row_key (concat (map (upserted applied) ?p1)))"
      unfolding k1 using push_effects_upserted_keys [of applied e' uid cs] by simp
    then have "set (map row_key (concat (map (upserted applied) ?p2)))
      \<subseteq> set (foldl (\<lambda>s k. if k \<in> set s then s else s @ [k]) (map row_key t)
         (map row_key (concat (map (upserted applied) ?p1))))"
      unfolding foldl_set_add_set' by blast
    then have "map row_key (remote_after applied (?p1 @ ?p2) t) = map row_key (remote_after applied ?p1 t)"
      unfolding keys keys1 by (simp add: foldl_set_add_known')
    then show "?p1 = map (\<lambda>c. RemoteUpsert (classroom_row_of uid (now e) c)
                                 (upsert_result e (classroom_row_of uid (now e) c))) cs
              \<and> map row_key (remote_after applied (?p1 @ ?p2) t) = map row_key (remote_after applied ?p1 t)"
      using push_effects_success [OF ok'] by simp
  qed
  have 5: "distinct (map row_key (remote_after applied (?p1 @ ?p2) t))"
    unfolding keys using d by (rule foldl_set_add_distinct')
  have 6: "set (map row_key t) \<subseteq> set (map row_key (remote_after applied (?p1 @ ?p2) t))"
    unfolding keys foldl_set_add_set' by blast
  have 7: "x \<in> set t \<and> cr_user_id x \<noteq> uid \<longrightarrow> x \<in> set (remote_after applied (?p1 @ ?p2) t)"
  proof
    assume x: "x \<in> set t \<and> cr_user_id x \<noteq> uid"
    have "\<And>y. y \<in> set (?p1 @ ?p2) \<Longrightarrow> row_key x \<notin> row_key ` set (upserted applied y)"
    proof
      fix y assume y: "y \<in> set (?p1 @ ?p2)" and "row_key x \<in> row_key ` set (upserted applied y)"
      then obtain r where r: "r \<in> set (upserted applied y)" and "row_key x = row_key r" by auto
      moreover have "cr_user_id r = uid"
        using y r push_effects_upserted_user [of y e uid cs r applied] push_effects_upserted_user [of y e' uid cs r applied]
        by auto
      ultimately show False using x by (simp add: row_key_def)
    qed
    with x show "x \<in> set (remote_after applied (?p1 @ ?p2) t)"
      by (intro remote_after_keeps_others [OF nd]) auto
  qed
  from 1 2 3 4 5 6 7 show ?thesis by (intro conjI)
qed


lemma applied_iff_ok: "applied_on_success applied_iff_ok"
  by (simp add: applied_on_success_def applied_iff_ok_def)

lemma online_ok: "\<exists>d. upsert_result online_env r = Resolved d None"
  by (simp add: online_env_def)

theorem push_upserts_only_witness:
  "distinct (map row_key [other_row])
   \<and> push_effects online_env ''u1'' (classrooms local_store)
       = map (\<lambda>c. RemoteUpsert (classroom_row_of ''u1'' (now online_env) c)
                      (upsert_result online_env (classroom_row_of ''u1'' (now online_env) c)))
           (classrooms local_store)
   \<and> map row_key (remote_after applied_iff_ok (push_effects online_env ''u1'' (classrooms local_store)
                                  @ push_effects online_env ''u1'' (classrooms local_store)) [other_row])
       = map row_key (remote_after applied_iff_ok (push_effects online_env ''u1'' (classrooms local_store)) [other_row])
   \<and> other_row \<in> set (remote_after applied_iff_ok (push_effects online_env ''u1'' (classrooms local_store)
                                  @ push_effects online_env ''u1'' (classrooms local_store)) [other_row])"
proof -
  have d: "distinct (map row_key [other_row])" by simp
  have u: "cr_user_id other_row \<noteq> ''u1''" by (simp add: other_row_def)
  have ok: "\<forall>c \<in> set (classrooms local_store).
      \<exists>d. upsert_result online_env (classroom_row_of ''u1'' (now online_env) c) = Resolved d None"
    using online_ok by blast
  have x: "other_row \<in> set [other_row] \<and> cr_user_id other_row \<noteq> ''u1''"
    using u by simp
  from push_upserts_only [OF d, where e = online_env and e' = online_env and uid = "''u1''"
        and cs = "classrooms local_store" and x = other_row and a = signed_in_app
        and c = "hd (classrooms local_store)" and applied = applied_iff_ok] ok x d applied_iff_ok
  show ?thesis by blast
qed

section \<open>The save pipeline\<close>

lemma saveOperation_offline:
  "\<not> onLine e \<Longrightarrow> saveOperation e badge a = a\<lparr>saveQueue := [], trace := trace a @ [LocalSave (DB a)]\<rparr>"
  by (simp add: saveOperation_def saveToLocalStorage_def Let_def)

lemma saveOperation_v6_offline:
  assumes "\<not> onLine e" and "user (DB a) = Some u" and "user_mode u = ''supabase''"
  shows "pendingChanges (DB (saveOperation_v6 push e badge a))
           = Some (let pushed = or_empty (pendingChanges (DB a))
                        @ [marker_of (now e, if saveQueue a = [] then None else Some (last (saveQueue a)))]
                   in if 50 < length pushed then tl pushed else pushed)
       \<and> (\<forall>x \<in> set (trace (saveOperation_v6 push e badge a)). x \<in> set (trace a) \<or> (\<exists>s. x = LocalSave s))"
  using assms
  by (auto simp: saveOperation_v6_def saveToLocalStorage_def queuePendingChanges_def Let_def
      or_empty_def split: option.splits)

text \<open>
  C7 fails on src/app.js. For a user who signed in with Supabase and a runtime that
  reports no connectivity, an immediate \<^verbatim>\<open>saveDB('class', true)\<close> writes the local
  snapshot and leaves the store as it was: the pending queue stays empty (no remote call
  either). The same holds when the debounce timer runs the save. The older copy of the
  closure, on the same input, queues the marker that the claim describes.
\<close>

theorem saveDB_offline_queues_nothing:
  "DB (saveDB offline_env ''class'' True signed_in_app) = DB signed_in_app
   \<and> pendingChanges (DB (saveDB offline_env ''class'' True signed_in_app)) = Some []
   \<and> trace (saveDB offline_env ''class'' True signed_in_app) = [LocalSave (DB signed_in_app)]
   \<and> DB (timer_fires offline_env (saveDB offline_env ''class'' False signed_in_app)) = DB signed_in_app
   \<and> pendingChanges (DB (saveOperation_v6 push offline_env ''class''
        (signed_in_app\<lparr>saveQueue := [''class'']\<rparr>)))
       = Some [\<lparr>timestamp = now offline_env, ctx = ''class''\<rparr>]"
  by (simp add: saveDB_def timer_fires_def saveOperation_def saveOperation_v6_def
      saveToLocalStorage_def queuePendingChanges_def marker_of_def Let_def
      offline_env_def signed_in_app_def initial_app_def initial_DB_def)

section \<open>The pull\<close>

lemma load_never_throws: "\<exists>r a'. loadUserDataFromSupabase q a = Inr (r, a')"
  by (simp add: loadUserDataFromSupabase_def split: sum.splits)

lemma load_caught:
  "load_try q (DB a) = Inl x \<Longrightarrow>
   loadUserDataFromSupabase q a = Inr (empty_remote, a\<lparr>trace := trace a @ [Notify RunSetupScript]\<rparr>)"
  by (simp add: loadUserDataFromSupabase_def)

lemma load_check_fails:
  "\<not> checkTableExists (q_check q) \<Longrightarrow> loadUserDataFromSupabase q a = Inr (empty_remote, a)"
  by (simp add: loadUserDataFromSupabase_def load_try_def)

lemma load_query_rejected:
  "checkTableExists (q_check q) \<Longrightarrow> q_classrooms q = Rejected x \<or> q_settings q = Rejected x \<Longrightarrow>
   \<exists>y. load_try q db = Inl y"
  by (auto simp: load_try_def awaited_def split: response.splits)

lemma load_classrooms_error:
  "checkTableExists (q_check q) \<Longrightarrow> q_classrooms q = Resolved d (Some x) \<Longrightarrow>
   load_try q db = Inr empty_remote \<or> (\<exists>y. load_try q db = Inl y)"
  by (auto simp: load_try_def awaited_def split: response.splits)

text \<open>
  \<^verbatim>\<open>loadUserDataFromSupabase\<close> of src/app.js never propagates an error: it always
  returns a value. Every exception of its body is caught and gives the empty remote and a
  notification; a table check that is rejected or that carries the missing-table
  signature gives the empty remote; once the table check has passed, a rejected
  classrooms or settings query and an error on the classrooms query give the empty
  remote.
\<close>

lemma load_degrades:
  "(\<exists>r a'. loadUserDataFromSupabase q a = Inr (r, a'))
   \<and> (load_try q (DB a) = Inl x \<longrightarrow>
        loadUserDataFromSupabase q a
          = Inr (empty_remote, a\<lparr>trace := trace a @ [Notify RunSetupScript]\<rparr>))
   \<and> (q_check q = Rejected x
        \<or> (q_check q = Resolved d err \<and> message_includes err ''relation''
             \<and> message_includes err ''does not exist'')
        \<longrightarrow> loadUserDataFromSupabase q a = Inr (empty_remote, a))
   \<and> (checkTableExists (q_check q)
        \<and> (q_classrooms q = Rejected x \<or> q_settings q = Rejected x
             \<or> q_classrooms q = Resolved cd (Some x))
        \<longrightarrow> (\<exists>a'. loadUserDataFromSupabase q a = Inr (empty_remote, a')))"
proof (intro conjI impI)
  show "\<exists>r a'. loadUserDataFromSupabase q a = Inr (r, a')" by (rule load_never_throws)
next
  assume "load_try q (DB a) = Inl x"
  then show "loadUserDataFromSupabase q a
          = Inr (empty_remote, a\<lparr>trace := trace a @ [Notify RunSetupScript]\<rparr>)"
    by (rule load_caught)
next
  assume "q_check q = Rejected x
        \<or> (q_check q = Resolved d err \<and> message_includes err ''relation''
             \<and> message_includes err ''does not exist'')"
  then have "\<not> checkTableExists (q_check q)" by (auto simp: checkTableExists_def)
  then show "loadUserDataFromSupabase q a = Inr (empty_remote, a)" by (rule load_check_fails)
next
  assume h: "checkTableExists (q_check q)
        \<and> (q_classrooms q = Rejected x \<or> q_settings q = Rejected x
             \<or> q_classrooms q = Resolved cd (Some x))"
  then have "load_try q (DB a) = Inr empty_remote \<or> (\<exists>y. load_try q (DB a) = Inl y)"
    using load_query_rejected [of q x "DB a"] load_classrooms_error [of q cd x "DB a"] by blast
  then show "\<exists>a'. loadUserDataFromSupabase q a = Inr (empty_remote, a')"
    by (auto simp: loadUserDataFromSupabase_def)
qed

text \<open>The four cases on sample answers of the backend.\<close>

lemma load_degrades_samples:
  "loadUserDataFromSupabase (pull_rejecting (Rejected network_error)) initial_app
     = Inr (empty_remote, initial_app)
   \<and> loadUserDataFromSupabase (pull_rejecting (Resolved None (Some missing_table))) initial_app
     = Inr (empty_remote, initial_app)
   \<and> load_try (pull_rejecting (Resolved (Some []) None)) (DB initial_app) = Inl network_error
   \<and> loadUserDataFromSupabase (pull_rejecting (Resolved (Some []) None)) initial_app
     = Inr (empty_remote, initial_app\<lparr>trace := trace initial_app @ [Notify RunSetupScript]\<rparr>)
   \<and> (\<exists>a'. loadUserDataFromSupabase
          ((pull_rejecting (Resolved (Some []) None))\<lparr>q_classrooms := Resolved None (Some permission_denied)\<rparr>)
          initial_app = Inr (empty_remote, a'))"
proof -
  let ?q1 = "pull_rejecting (Rejected network_error)"
  let ?q2 = "pull_rejecting (Resolved None (Some missing_table))"
  let ?q3 = "pull_rejecting (Resolved (Some []) None)"
  let ?q4 = "?q3\<lparr>q_classrooms := Resolved None (Some permission_denied)\<rparr>"
  have c1: "q_check ?q1 = Rejected network_error" by (simp add: pull_rejecting_def)
  have c2: "q_check ?q2 = Resolved None (Some missing_table)
     \<and> message_includes (Some missing_table) ''relation''
     \<and> message_includes (Some missing_table) ''does not exist''"
    by (simp add: pull_rejecting_def message_includes_def missing_table_def)
  have c3: "load_try ?q3 (DB initial_app) = Inl network_error"
    by (simp add: load_try_def pull_rejecting_def checkTableExists_def message_includes_def awaited_def)
  have c4: "checkTableExists (q_check ?q4) \<and> q_classrooms ?q4 = Resolved None (Some permission_denied)"
    by (simp add: pull_rejecting_def checkTableExists_def message_includes_def)
  from load_degrades [of ?q1 initial_app network_error] c1
  have 1: "loadUserDataFromSupabase ?q1 initial_app = Inr (empty_remote, initial_app)" by blast
  from load_degrades [of ?q2 initial_app _ None "Some missing_table"] c2
  have 2: "loadUserDataFromSupabase ?q2 initial_app = Inr (empty_remote, initial_app)" by blast
  from load_degrades [of ?q3 initial_app network_error] c3
  have 3: "loadUserDataFromSupabase ?q3 initial_app
     = Inr (empty_remote, initial_app\<lparr>trace := trace initial_app @ [Notify RunSetupScript]\<rparr>)" by blast
  from load_degrades [of ?q4 initial_app permission_denied _ _ None] c4
  have 4: "\<exists>a'. loadUserDataFromSupabase ?q4 initial_app = Inr (empty_remote, a')" by blast
  from 1 2 c3 3 4 show ?thesis by (intro conjI)
qed

text \<open>
  The sync when the network request of every query and of every upsert fails: it is not
  aborted. It ends in the status \<^verbatim>\<open>idle\<close> with the pending queue emptied, after one
  notification that three items failed.
\<close>

lemma sync_on_network_failure:
  "syncStatus (DB (syncWithCloud Date_parse_sample (pull_rejecting (Rejected network_error))
       offline_env signed_in_class_app)) = Some ''idle''
   \<and> pendingChanges (DB (syncWithCloud Date_parse_sample (pull_rejecting (Rejected network_error))
       offline_env signed_in_class_app)) = Some []
   \<and> classrooms (DB (syncWithCloud Date_parse_sample (pull_rejecting (Rejected network_error))
       offline_env signed_in_class_app)) = classrooms local_store
   \<and> filter (\<lambda>x. \<exists>n. x = Notify n) (trace (syncWithCloud Date_parse_sample (pull_rejecting (Rejected network_error))
       offline_env signed_in_class_app)) = [Notify (ItemsFailed 3)]"
  by (simp add: syncWithCloud_def loadUserDataFromSupabase_def load_try_def pull_rejecting_def
      checkTableExists_def remote_user_def signed_in_class_app_def signed_in_app_def initial_app_def
      initial_DB_def offline_env_def Let_def mergeData_def empty_remote_def sample_defs
      new_Map_def new_Set_def mergeClassroom_def saveUserDataToSupabase_def push_effects_def
      classroom_row_of_def saveToLocalStorage_def or_one_def network_error_def message_includes_def)

text \<open>
  The same when the table check still got through and the network fails from the next
  query on: the pull notifies that the tables are not set up, and the sync ends the same
  way.
\<close>

lemma sync_after_table_check:
  "syncStatus (DB (syncWithCloud Date_parse_sample (pull_rejecting (Resolved (Some []) None))
       offline_env signed_in_class_app)) = Some ''idle''
   \<and> pendingChanges (DB (syncWithCloud Date_parse_sample (pull_rejecting (Resolved (Some []) None))
       offline_env signed_in_class_app)) = Some []
   \<and> filter (\<lambda>x. \<exists>n. x = Notify n) (trace (syncWithCloud Date_parse_sample (pull_rejecting (Resolved (Some []) None))
       offline_env signed_in_class_app)) = [Notify RunSetupScript, Notify (ItemsFailed 3)]"
  by (simp add: syncWithCloud_def loadUserDataFromSupabase_def load_try_def pull_rejecting_def
      checkTableExists_def remote_user_def signed_in_class_app_def signed_in_app_def initial_app_def
      initial_DB_def offline_env_def Let_def mergeData_def empty_remote_def sample_defs awaited_def
      new_Map_def new_Set_def mergeClassroom_def saveUserDataToSupabase_def push_effects_def
      classroom_row_of_def saveToLocalStorage_def or_one_def network_error_def message_includes_def)

text \<open>
  A pull where the query for the students resolves with an error: the error is not looked
  at, and the pull returns the classroom with no students, without any notification.
\<close>

lemma pull_students_failing_result:
  "loadUserDataFromSupabase pull_students_failing initial_app
     = Inr (empty_remote\<lparr>classrooms := [room ''class_1'' ''Maths'' ''2024-01-01T00:00:00Z'' [] []],
              exportSettings := exportSettings initial_DB, nextId := Some 1\<rparr>, initial_app)"
  by (simp add: loadUserDataFromSupabase_def load_try_def pull_students_failing_def
      checkTableExists_def message_includes_def awaited_def or_empty_def maths_row_def
      initial_app_def Let_def BATCH_SIZE_def cloud_classroom_def room_def empty_remote_def)

text \<open>
  C5 fails on the code. When the network request of every query fails, at the table check
  or after it, \<^verbatim>\<open>loadUserDataFromSupabase\<close> of src/app.js returns the empty remote
  (after the table check, with the notice that the tables are not set up) and does not
  propagate the network error; \<^verbatim>\<open>syncWithCloud\<close> built on it is not aborted: it
  ends in the status \<^verbatim>\<open>idle\<close> with the pending queue emptied, not used. And when
  the query for the students answers with a schema error, the pull neither degrades to the
  empty remote nor aborts: it returns the classroom without its students.
\<close>

theorem pull_swallows_network_error:
  "loadUserDataFromSupabase (pull_rejecting (Rejected network_error)) initial_app
     = Inr (empty_remote, initial_app)
   \<and> loadUserDataFromSupabase (pull_rejecting (Resolved (Some []) None)) initial_app
     = Inr (empty_remote, initial_app\<lparr>trace := [Notify RunSetupScript]\<rparr>)
   \<and> loadUserDataFromSupabase (pull_rejecting (Resolved (Some []) None)) initial_app
     \<noteq> Inl network_error
   \<and> syncStatus (DB (syncWithCloud Date_parse_sample (pull_rejecting (Rejected network_error))
       offline_env signed_in_class_app)) = Some ''idle''
   \<and> pendingChanges (DB (syncWithCloud Date_parse_sample (pull_rejecting (Rejected network_error))
       offline_env signed_in_class_app)) = Some []
   \<and> syncStatus (DB (syncWithCloud Date_parse_sample (pull_rejecting (Resolved (Some []) None))
       offline_env signed_in_class_app)) = Some ''idle''
   \<and> pendingChanges (DB (syncWithCloud Date_parse_sample (pull_rejecting (Resolved (Some []) None))
       offline_env signed_in_class_app)) = Some []
   \<and> loadUserDataFromSupabase pull_students_failing initial_app
     = Inr (empty_remote\<lparr>classrooms := [room ''class_1'' ''Maths'' ''2024-01-01T00:00:00Z'' [] []],
              exportSettings := exportSettings initial_DB, nextId := Some 1\<rparr>, initial_app)"
  using sync_on_network_failure sync_after_table_check pull_students_failing_result
  by (simp add: loadUserDataFromSupabase_def load_try_def pull_rejecting_def checkTableExists_def
      message_includes_def awaited_def initial_app_def)

section \<open>The handlers\<close>



lemma update_first_filter:
  "filter (\<lambda>x. \<not> P x) (update_first P f xs) = filter (\<lambda>x. \<not> P x) xs \<or> (\<exists>x. P x \<and> \<not> P (f x))"
  by (induction xs) auto




lemma find_update_first_None:
  "List.find P xs = None \<Longrightarrow> update_first P f xs = xs"
  by (induction xs) (auto split: if_splits)

lemma saveOperation_doc:
  "classrooms (DB (saveOperation e badge a)) = classrooms (DB a)
   \<and> CID (saveOperation e badge a) = CID a \<and> LID (saveOperation e badge a) = LID a
   \<and> editSid (saveOperation e badge a) = editSid a
   \<and> currentLessonMode (saveOperation e badge a) = currentLessonMode a"
  by (simp add: saveOperation_def saveToLocalStorage_def saveUserDataToSupabase_def
      queuePendingChanges_def Let_def split: option.splits)

lemma saveDB_doc:
  "classrooms (DB (saveDB e badge immediate a)) = classrooms (DB a)
   \<and> CID (saveDB e badge immediate a) = CID a \<and> LID (saveDB e badge immediate a) = LID a
   \<and> editSid (saveDB e badge immediate a) = editSid a
   \<and> currentLessonMode (saveDB e badge immediate a) = currentLessonMode a"
  by (simp add: saveDB_def Let_def saveOperation_doc)


lemma timer_fires_doc:
  "classrooms (DB (timer_fires e a)) = classrooms (DB a)
   \<and> CID (timer_fires e a) = CID a \<and> LID (timer_fires e a) = LID a
   \<and> editSid (timer_fires e a) = editSid a
   \<and> currentLessonMode (timer_fires e a) = currentLessonMode a"
  by (simp add: timer_fires_def saveOperation_doc split: option.splits)




lemma same_document_refl: "same_document a a"
  by (simp add: same_document_def)

lemma same_document_trans: "same_document a b \<Longrightarrow> same_document b c \<Longrightarrow> same_document a c"
  by (simp add: same_document_def)

lemma tick_same: "same_document (tick t a) a"
  by (simp add: tick_def same_document_def timer_fires_doc split: option.splits)

lemma saveDB_same: "same_document (saveDB e badge immediate a) a"
  by (simp add: same_document_def saveDB_doc)

lemma CC_same: "same_document a b \<Longrightarrow> CC a = CC b"
  by (simp add: same_document_def CC_def getC_def split: option.splits)

lemma CL_same: "same_document a b \<Longrightarrow> CL a = CL b"
  by (simp add: same_document_def CL_def getLesson_def getC_def split: option.splits)

lemma updateCC_same: "same_document a b \<Longrightarrow> same_document (updateCC f a) (updateCC f b)"
  by (simp add: same_document_def updateCC_def split: option.splits)

lemma updateCL_same: "same_document a b \<Longrightarrow> same_document (updateCL f a) (updateCL f b)"
  using updateCC_same by (simp add: updateCL_def same_document_def split: option.splits)

lemma LID_update_same:
  "same_document a b \<Longrightarrow> same_document (a\<lparr>LID := l\<rparr>) (b\<lparr>LID := l\<rparr>)"
  by (simp add: same_document_def)

lemma studentStats_same: "same_document a b \<Longrightarrow> studentStats sid a = studentStats sid b"
  by (simp add: studentStats_def CC_same)

lemma openClassroom_same:
  "same_document a b \<Longrightarrow> same_document (openClassroom k a) (openClassroom k b)"
  by (simp add: same_document_def openClassroom_def)

lemma openAddStudent_same:
  "same_document a b \<Longrightarrow> same_document (openAddStudent a) (openAddStudent b)"
  by (simp add: same_document_def openAddStudent_def)

lemma createClassroom_same:
  "same_document a b \<Longrightarrow> same_document (createClassroom e suffix form a) (createClassroom e suffix form b)"
  by (auto simp: same_document_def createClassroom_def saveDB_doc Let_def split: option.splits)

lemma saveDB_cong:
  "same_document a b \<Longrightarrow> same_document (saveDB e badge immediate a) (saveDB e' badge' immediate' b)"
  by (simp add: same_document_def saveDB_doc)

lemma saveStudent_same:
  assumes "same_document a b"
  shows "same_document (saveStudent e form a) (saveStudent e form b)"
proof -
  have cc: "CC a = CC b" by (rule CC_same [OF assms])
  have ed: "editSid a = editSid b" using assms by (simp add: same_document_def)
  show ?thesis
    unfolding saveStudent_def cc ed
    by (auto split: option.splits intro!: saveDB_cong updateCC_same simp: assms)
qed

lemma saveLesson_same:
  assumes "same_document a b"
  shows "same_document (saveLesson e form a) (saveLesson e form b)"
proof -
  have cc: "CC a = CC b" by (rule CC_same [OF assms])
  have md: "currentLessonMode a = currentLessonMode b" using assms by (simp add: same_document_def)
  show ?thesis
    unfolding saveLesson_def cc md Let_def
    by (auto split: option.splits intro!: saveDB_cong LID_update_same updateCC_same simp: assms)
qed

lemma setAtt_same:
  assumes "same_document a b"
  shows "same_document (setAtt e sid status a) (setAtt e sid status b)"
proof -
  have cl: "CL a = CL b" by (rule CL_same [OF assms])
  show ?thesis
    unfolding setAtt_def cl
    by (auto split: option.splits intro!: saveDB_cong updateCL_same simp: assms)
qed

lemma saveDB_debounced:
  "saveDB e badge False a = a\<lparr>saveQueue := saveQueue a @ [badge], timer := Some badge\<rparr>"
  by (simp add: saveDB_def Let_def)

lemma scenario_without_timer:
  assumes empty: "classrooms (DB a0) = []"
    and cn: "inp_cname cform = Some cn" "cn \<noteq> []"
    and sn: "inp_sname sform = Some sn" "sn \<noteq> []"
    and tp: "inp_ltopic lform = Some tp" "tp \<noteq> []"
  shows "let a1 = openClassroom (''class_'' @ suffix) (createClassroom e1 suffix cform a0);
             a2 = saveStudent e2 sform (openAddStudent a1);
             a3 = saveLesson e3 lform a2;
             a4 = setAtt e4 1 ''absent'' a3
         in map_option (\<lambda>c. map id' (students c)) (CC a3) = Some [1]
          \<and> map_option (\<lambda>c. map data (lessons c)) (CC a3) = Some [Some []]
          \<and> studentStats 1 a3 = \<lparr>present = 1, late = 0, absent = 0, attended = 1, total = 1\<rparr>
          \<and> map_option (\<lambda>c. map data (lessons c)) (CC a4) = Some [Some [(''att_1'', ''absent'')]]
          \<and> studentStats 1 a4 = \<lparr>present = 0, late = 0, absent = 1, attended = 0, total = 1\<rparr>"
  using assms
  by (simp add: Let_def openClassroom_def createClassroom_def saveStudent_def openAddStudent_def
      saveLesson_def setAtt_def studentStats_def saveDB_debounced CC_def CL_def getC_def
      getLesson_def updateCC_def updateCL_def update_last_def applies_to_def att_value_def
      att_key_def string_of_int_def or_empty_def IELTS_SECTIONS_def)

text \<open>
  C9. Starting from a store with no classroom: after creating a classroom and opening it,
  adding one student (who gets the id 1) and creating one lesson, whose \<^verbatim>\<open>data\<close> is
  empty, \<^verbatim>\<open>studentStats(1)\<close> is one present, no late, no absent, one attended, of one
  lesson; after \<^verbatim>\<open>setAtt(1, 'absent')\<close> on that lesson it is no present, no late, one
  absent, none attended, of one lesson. This holds for every valid input of the forms,
  and whether or not the debounce timer fires between the actions.
\<close>

theorem studentStats_scenario:
  assumes empty: "classrooms (DB a0) = []"
    and cn: "inp_cname cform = Some cn" "cn \<noteq> []"
    and sn: "inp_sname sform = Some sn" "sn \<noteq> []"
    and tp: "inp_ltopic lform = Some tp" "tp \<noteq> []"
  shows "let a1 = tick t1 (openClassroom (''class_'' @ suffix) (tick t0 (createClassroom e1 suffix cform a0)));
             a2 = tick t2 (saveStudent e2 sform (openAddStudent a1));
             a3 = tick t3 (saveLesson e3 lform a2);
             a4 = tick t4 (setAtt e4 1 ''absent'' a3)
         in map_option (\<lambda>c. map id' (students c)) (CC a3) = Some [1]
          \<and> map_option (\<lambda>c. map data (lessons c)) (CC a3) = Some [Some []]
          \<and> studentStats 1 a3 = \<lparr>present = 1, late = 0, absent = 0, attended = 1, total = 1\<rparr>
          \<and> map_option (\<lambda>c. map data (lessons c)) (CC a4) = Some [Some [(''att_1'', ''absent'')]]
          \<and> studentStats 1 a4 = \<lparr>present = 0, late = 0, absent = 1, attended = 0, total = 1\<rparr>"
proof -
  define b1 where "b1 = openClassroom (''class_'' @ suffix) (createClassroom e1 suffix cform a0)"
  define b2 where "b2 = saveStudent e2 sform (openAddStudent b1)"
  define b3 where "b3 = saveLesson e3 lform b2"
  define b4 where "b4 = setAtt e4 1 ''absent'' b3"
  define a1 where "a1 = tick t1 (openClassroom (''class_'' @ suffix) (tick t0 (createClassroom e1 suffix cform a0)))"
  define a2 where "a2 = tick t2 (saveStudent e2 sform (openAddStudent a1))"
  define a3 where "a3 = tick t3 (saveLesson e3 lform a2)"
  define a4 where "a4 = tick t4 (setAtt e4 1 ''absent'' a3)"
  have s1: "same_document a1 b1"
    unfolding a1_def b1_def
    by (intro same_document_trans [OF tick_same] openClassroom_same tick_same)
  have s2: "same_document a2 b2"
    unfolding a2_def b2_def
    by (intro same_document_trans [OF tick_same] saveStudent_same openAddStudent_same s1)
  have s3: "same_document a3 b3"
    unfolding a3_def b3_def
    by (intro same_document_trans [OF tick_same] saveLesson_same s2)
  have s4: "same_document a4 b4"
    unfolding a4_def b4_def
    by (intro same_document_trans [OF tick_same] setAtt_same s3)
  have b: "map_option (\<lambda>c. map id' (students c)) (CC b3) = Some [1]
          \<and> map_option (\<lambda>c. map data (lessons c)) (CC b3) = Some [Some []]
          \<and> studentStats 1 b3 = \<lparr>present = 1, late = 0, absent = 0, attended = 1, total = 1\<rparr>
          \<and> map_option (\<lambda>c. map data (lessons c)) (CC b4) = Some [Some [(''att_1'', ''absent'')]]
          \<and> studentStats 1 b4 = \<lparr>present = 0, late = 0, absent = 1, attended = 0, total = 1\<rparr>"
    using scenario_without_timer [OF assms, of suffix e1 e2 e3 e4]
    by (simp add: Let_def b1_def b2_def b3_def b4_def)
  have "map_option (\<lambda>c. map id' (students c)) (CC a3) = Some [1]
          \<and> map_option (\<lambda>c. map data (lessons c)) (CC a3) = Some [Some []]
          \<and> studentStats 1 a3 = \<lparr>present = 1, late = 0, absent = 0, attended = 1, total = 1\<rparr>
          \<and> map_option (\<lambda>c. map data (lessons c)) (CC a4) = Some [Some [(''att_1'', ''absent'')]]
          \<and> studentStats 1 a4 = \<lparr>present = 0, late = 0, absent = 1, attended = 0, total = 1\<rparr>"
    using b by (simp add: CC_same [OF s3] CC_same [OF s4] studentStats_same [OF s3] studentStats_same [OF s4])
  then show ?thesis
    by (simp add: Let_def a1_def a2_def a3_def a4_def)
qed

theorem studentStats_scenario_witness:
  "classrooms (DB initial_app) = []
   \<and> studentStats 1
       (saveLesson offline_env first_lesson_form
         (tick (Some offline_env)
           (saveStudent offline_env ada_form
             (openAddStudent
               (openClassroom ''class_1709283600000_k3j9x2a1b''
                 (createClassroom offline_env ''1709283600000_k3j9x2a1b'' maths_form initial_app))))))
       = \<lparr>present = 1, late = 0, absent = 0, attended = 1, total = 1\<rparr>
   \<and> studentStats 1
       (setAtt offline_env 1 ''absent''
         (saveLesson offline_env first_lesson_form
           (tick (Some offline_env)
             (saveStudent offline_env ada_form
               (openAddStudent
                 (openClassroom ''class_1709283600000_k3j9x2a1b''
                   (createClassroom offline_env ''1709283600000_k3j9x2a1b'' maths_form initial_app)))))))
       = \<lparr>present = 0, late = 0, absent = 1, attended = 0, total = 1\<rparr>"
proof -
  have e: "classrooms (DB initial_app) = []" by (simp add: initial_app_def initial_DB_def)
  have c: "inp_cname maths_form = Some ''Maths''" "''Maths'' \<noteq> []" by (simp_all add: maths_form_def)
  have s: "inp_sname ada_form = Some ''Ada''" "''Ada'' \<noteq> []" by (simp_all add: ada_form_def)
  have l: "inp_ltopic first_lesson_form = Some ''Fractions''" "''Fractions'' \<noteq> []"
    by (simp_all add: first_lesson_form_def)
  show ?thesis
    using e studentStats_scenario [OF e c s l, of None "''1709283600000_k3j9x2a1b''" None offline_env
        "Some offline_env" offline_env None offline_env None offline_env]
    by (simp add: Let_def tick_def)
qed



end
